theory Spec2Isabelle
  imports Main "HOL-Library.Word"
begin

section \<open>The session multiplexer of msocks (session.go)\<close>

text \<open>
  A shallow embedding of \<^verbatim>\<open>src/msocks/session.go\<close>. A \<^verbatim>\<open>Session\<close> owns one
  transport connection and a table from 16-bit stream ids to Go channels of frames.
  Every method becomes a function that takes the session and returns the session it
  leaves behind. What a method does to the outside (the transport, the two mutexes, the
  error log, goroutines it starts, the time it sleeps) is appended to the session's
  \<open>trace\<close>, in program order.
\<close>

subsection \<open>Constants\<close>

text \<open>Durations are counted in nanoseconds, as Go's \<^verbatim>\<open>time.Duration\<close> does.\<close>

definition Millisecond :: nat where "Millisecond = 1000000"
definition Second :: nat where "Second = 1000 * Millisecond"
definition Minute :: nat where "Minute = 60 * Second"

definition CHANLEN :: nat where "CHANLEN = 1024"
definition IDLECLOSE :: nat where "IDLECLOSE = 10 * Minute"
definition PINGTIME :: nat where "PINGTIME = 30 * Second"

definition errClosing :: string where
  "errClosing = ''use of closed network connection''"

subsection \<open>Errors, frames and channels\<close>

type_synonym bytes = "8 word list"
type_synonym streamid = "16 word"

text \<open>
  Go errors: \<^verbatim>\<open>io.EOF\<close>, \<^verbatim>\<open>io.ErrShortWrite\<close>, and an error made from a message
  (\<^verbatim>\<open>errors.New\<close>, \<^verbatim>\<open>fmt.Errorf\<close>, or whatever the transport reports).
  \<open>Error\<close> is the method \<^verbatim>\<open>err.Error()\<close>.
\<close>

datatype error = EOF | ErrShortWrite | Err string

fun Error :: "error \<Rightarrow> string" where
  "Error EOF = ''EOF''"
| "Error ErrShortWrite = ''short write''"
| "Error (Err m) = m"

text \<open>
  Modelled from the spec: the frame variants of section 6 (SYN, OK, FAILED, DATA, ACK,
  FIN, DNS, ADDR, PING); the frame types are declared outside session.go. Fields other
  than the stream id are opaque to the session. \<open>FrameOther\<close> stands for any value that
  is none of the types the switch of \<^verbatim>\<open>Run\<close> names.
\<close>

datatype Frame =
    FrameOK streamid
  | FrameFAILED streamid nat
  | FrameData streamid bytes
  | FrameAck streamid nat
  | FrameFin streamid
  | FrameAddr streamid "bytes list"
  | FrameSyn streamid string
  | FrameDns streamid string
  | FramePing
  | FrameOther streamid

fun GetStreamid :: "Frame \<Rightarrow> streamid" where
  "GetStreamid (FrameOK i) = i"
| "GetStreamid (FrameFAILED i _) = i"
| "GetStreamid (FrameData i _) = i"
| "GetStreamid (FrameAck i _) = i"
| "GetStreamid (FrameFin i) = i"
| "GetStreamid (FrameAddr i _) = i"
| "GetStreamid (FrameSyn i _) = i"
| "GetStreamid (FrameDns i _) = i"
| "GetStreamid FramePing = 0"
| "GetStreamid (FrameOther i) = i"

text \<open>
  Modelled from the spec: the message kinds and reason codes that session.go passes to
  the frame encoders (their numeric values are declared outside session.go).
\<close>

datatype msgtype = MSG_OK | MSG_FAILED | MSG_PING
datatype errcode = ERR_IDEXIST | ERR_CONNFAILED

text \<open>
  A value of type \<^verbatim>\<open>chan Frame\<close>: the nil channel, or a channel with its capacity and
  the frames buffered in it, oldest first. A buffered \<open>None\<close> is the nil \<^verbatim>\<open>Frame\<close>,
  which \<^verbatim>\<open>Close\<close> sends as the end-of-session sentinel. Receivers run outside
  session.go and are not modelled, so a buffer only grows.
\<close>

datatype chan = NilChan | Chan nat "Frame option list"

text \<open>
  One attempt to send on a channel: the channel after the send, or \<open>None\<close> when the
  send cannot proceed now (the nil channel never accepts; a channel whose buffer is full
  does not accept until a receiver takes a frame). On \<open>None\<close> a \<^verbatim>\<open>select\<close> with
  \<^verbatim>\<open>default\<close> takes the default branch, and a plain send statement blocks.
\<close>

fun try_send :: "chan \<Rightarrow> Frame option \<Rightarrow> chan option" where
  "try_send NilChan f = None"
| "try_send (Chan cap buf) f = (if length buf < cap then Some (Chan cap (buf @ [f])) else None)"

subsection \<open>The session and its surroundings\<close>

datatype mutex = Flock | Plock

datatype task =
    Go_keep_eye_open
  | Go_on_syn streamid string
  | Go_on_dns streamid string
  | Go_on_dns_lookup streamid string

text \<open>
  What a method does to the outside. \<open>LogErr\<close> is a call of \<^verbatim>\<open>logger.Err\<close> or
  \<^verbatim>\<open>logger.Errf\<close> (for \<^verbatim>\<open>Errf\<close> the format string is kept, the arguments are not);
  calls at the levels debug, notice and warning are not recorded.
\<close>

datatype event =
    Lock mutex
  | Unlock mutex
  | ConnWrite bytes
  | ConnClose
  | LogErr string
  | Sleep nat
  | OnConn string string streamid
  | LookupHost string
  | Go task

text \<open>
  The fields of \<^verbatim>\<open>Session\<close>. \<open>on_conn\<close> is \<open>None\<close> while the Go field is nil.
  \<open>idleclose\<close> holds the handle of the timer made by \<^verbatim>\<open>time.AfterFunc\<close>, and
  \<open>timers\<close> is the runtime's table of those timers: entry \<open>h\<close> says whether timer
  \<open>h\<close> is pending (it is not once it has been stopped or has gone off) and when it is
  due. \<open>now\<close> is a logical clock in nanoseconds that advances only where the code
  waits, so it is a lower bound on the time elapsed since the session was made.
\<close>

record Session =
  next_id :: streamid
  ports :: "streamid \<rightharpoonup> chan"
  on_conn :: "(string \<Rightarrow> string \<Rightarrow> streamid \<Rightarrow> error + chan) option"
  ch_ping :: "int list"
  idleclose :: "nat option"
  timers :: "(bool \<times> nat) list"
  now :: nat
  trace :: "event list"

text \<open>
  What session.go calls and does not define: the frame encoders, the transport and the
  resolver. \<open>conn_Write k b\<close> is what \<^verbatim>\<open>s.conn.Write(b)\<close> returns when it is the
  \<open>k\<close>-th write on the connection (counting from 0).
\<close>

record world =
  NewFrameNoParam :: "msgtype \<Rightarrow> streamid \<Rightarrow> bytes"
  NewFrameOneInt :: "msgtype \<Rightarrow> streamid \<Rightarrow> errcode \<Rightarrow> bytes"
  NewFrameAddr :: "streamid \<Rightarrow> bytes list \<Rightarrow> error + bytes"
  conn_Write :: "nat \<Rightarrow> bytes \<Rightarrow> int \<times> error option"
  LookupIP :: "string \<Rightarrow> error + bytes list"

text \<open>How a call ends: the loop goes on, the function returned, it is stuck in a
  blocking send, or it panicked.\<close>

datatype status = Running | Returned | Blocked | Panicked

definition emit :: "event \<Rightarrow> Session \<Rightarrow> Session" where
  "emit e s = s\<lparr>trace := trace s @ [e]\<rparr>"

fun conn_writes :: "event list \<Rightarrow> bytes list" where
  "conn_writes [] = []"
| "conn_writes (ConnWrite b # es) = b # conn_writes es"
| "conn_writes (_ # es) = conn_writes es"

subsection \<open>NewSession\<close>

definition NewSession :: Session where
  "NewSession =
    \<lparr>next_id = 0, ports = Map.empty, on_conn = None, ch_ping = [1], idleclose = None,
     timers = [], now = 0, trace = [Go Go_keep_eye_open]\<rparr>"

subsection \<open>Write\<close>

definition Write :: "world \<Rightarrow> bytes \<Rightarrow> Session \<Rightarrow> (int \<times> error option) \<times> Session" where
  "Write w b s =
    (let s1 = emit (Lock Flock) s;
         (n, err) = conn_Write w (length (conn_writes (trace s1))) b;
         s2 = emit (ConnWrite b) s1
     in case err of
          None \<Rightarrow>
            if n \<noteq> int (length b) then ((n, Some ErrShortWrite), emit (Unlock Flock) s2)
            else ((n, None), emit (Unlock Flock) s2)
        | Some e \<Rightarrow>
            if Error e = errClosing then ((0, Some EOF), emit (Unlock Flock) s2)
            else ((n, Some e), emit (Unlock Flock) s2))"

subsection \<open>The stream table\<close>

text \<open>The verb \<^verbatim>\<open>%d\<close> of \<^verbatim>\<open>fmt\<close> on an unsigned number: its decimal digits.\<close>

definition digit_char :: "nat \<Rightarrow> char" where
  "digit_char d = ''0123456789'' ! (d mod 10)"

function itoa :: "nat \<Rightarrow> string" where
  "itoa n = (if n < 10 then [digit_char n] else itoa (n div 10) @ [digit_char (n mod 10)])"
  by pat_completeness auto
termination
  by (relation "measure (\<lambda>n. n)") auto

declare itoa.simps [simp del]

text \<open>
  The loop of \<^verbatim>\<open>PutIntoNextId\<close>, started with \<open>nid = startid\<close>: it returns whether a
  free id was found, and the value the loop leaves in \<^verbatim>\<open>s.next_id\<close>.
\<close>

function PutIntoNextId_loop :: "(streamid \<rightharpoonup> chan) \<Rightarrow> streamid \<Rightarrow> streamid \<Rightarrow> bool \<times> streamid" where
  "PutIntoNextId_loop ps startid nid =
     (if ps nid \<noteq> None
      then (let nid' = nid + 1
            in if nid' = startid then (False, nid') else PutIntoNextId_loop ps startid nid')
      else (True, nid))"
  by pat_completeness auto
termination
proof (relation "measure (\<lambda>(ps, startid, nid). unat (startid - nid - 1))")
  show "wf (measure (\<lambda>(ps, startid, nid). unat (startid - nid - 1)))"
    by simp
next
  fix ps :: "streamid \<rightharpoonup> chan" and startid nid nid' :: streamid
  assume "nid' = nid + 1" and "nid' \<noteq> startid"
  then have nz: "startid - nid - 1 \<noteq> 0"
  proof -
    assume a: "nid' = nid + 1" "nid' \<noteq> startid"
    show ?thesis
    proof
      assume "startid - nid - 1 = 0"
      then have "startid = nid + 1" by (simp add: algebra_simps)
      with a show False by simp
    qed
  qed
  have "startid - nid' - 1 = (startid - nid - 1) - 1"
    using \<open>nid' = nid + 1\<close> by simp
  moreover have "unat ((startid - nid - 1) - 1) < unat (startid - nid - 1)"
  proof -
    have "unat ((startid - nid - 1) - 1) = unat (startid - nid - 1) - 1"
      using nz by (rule unat_minus_one)
    moreover have "0 < unat (startid - nid - 1)"
      using nz by (simp add: unat_gt_0)
    ultimately show ?thesis by arith
  qed
  ultimately show "((ps, startid, nid'), (ps, startid, nid))
      \<in> measure (\<lambda>(ps, startid, nid). unat (startid - nid - 1))"
    by (simp only: in_measure prod.case)
qed

declare PutIntoNextId_loop.simps [simp del]

text \<open>\<^verbatim>\<open>Timer.Stop\<close> on the timer with handle \<open>h\<close>.\<close>

fun stop_timer :: "nat \<Rightarrow> (bool \<times> nat) list \<Rightarrow> (bool \<times> nat) list" where
  "stop_timer h [] = []"
| "stop_timer 0 ((pending, due) # ts) = (False, due) # ts"
| "stop_timer (Suc h) (t # ts) = t # stop_timer h ts"

text \<open>\<^verbatim>\<open>if s.idleclose != nil { s.idleclose.Stop(); s.idleclose = nil }\<close>\<close>

definition stop_idleclose :: "Session \<Rightarrow> Session" where
  "stop_idleclose s =
     (case idleclose s of
        None \<Rightarrow> s
      | Some h \<Rightarrow> s\<lparr>timers := stop_timer h (timers s), idleclose := None\<rparr>)"

definition PutIntoNextId :: "chan \<Rightarrow> Session \<Rightarrow> (error + streamid) \<times> Session" where
  "PutIntoNextId ch s =
    (let s1 = emit (Lock Plock) s;
         (found, nid) = PutIntoNextId_loop (ports s1) (next_id s1) (next_id s1);
         s2 = s1\<lparr>next_id := nid\<rparr>
     in if \<not> found
        then (Inl (Err ''run out of stream id''),
              emit (Unlock Plock) (emit (LogErr ''run out of stream id'') s2))
        else (let sid = next_id s2;
                  s3 = s2\<lparr>next_id := next_id s2 + 1\<rparr>;
                  s4 = s3\<lparr>ports := (ports s3)(sid \<mapsto> ch)\<rparr>
              in (Inr sid, emit (Unlock Plock) (stop_idleclose s4))))"

definition PutIntoId :: "streamid \<Rightarrow> chan \<Rightarrow> Session \<Rightarrow> Session" where
  "PutIntoId sid ch s =
    (let s1 = emit (Lock Plock) s;
         s2 = s1\<lparr>ports := (ports s1)(sid \<mapsto> ch)\<rparr>
     in emit (Unlock Plock) s2)"

text \<open>\<^verbatim>\<open>len(s.ports) == 0\<close> is \<open>dom (ports s) = {}\<close>.\<close>

definition RemovePorts :: "streamid \<Rightarrow> Session \<Rightarrow> error option \<times> Session" where
  "RemovePorts sid s =
    (let s1 = emit (Lock Plock) s;
         (err, s2) =
           (if ports s1 sid \<noteq> None
            then (None, s1\<lparr>ports := (ports s1)(sid := None)\<rparr>)
            else (Some (Err (''streamid('' @ itoa (unat sid) @ '') not exist.'')), s1));
         s3 = (if dom (ports s2) = {}
               then s2\<lparr>idleclose := Some (length (timers s2)),
                       timers := timers s2 @ [(True, now s2 + IDLECLOSE)]\<rparr>
               else s2)
     in (err, emit (Unlock Plock) s3))"

text \<open>
  The timer with handle \<open>h\<close> goes off: if it is still pending, the runtime runs the
  function given to \<^verbatim>\<open>time.AfterFunc\<close>, which is \<^verbatim>\<open>s.conn.Close()\<close>, at the time the
  timer is due.
\<close>

definition timer_pending :: "nat \<Rightarrow> (bool \<times> nat) list \<Rightarrow> bool" where
  "timer_pending h ts = (h < length ts \<and> fst (ts ! h))"

definition idleclose_fires :: "nat \<Rightarrow> Session \<Rightarrow> Session" where
  "idleclose_fires h s =
     (if timer_pending h (timers s)
      then emit ConnClose
             (s\<lparr>timers := stop_timer h (timers s), now := max (now s) (snd (timers s ! h))\<rparr>)
      else s)"

definition Number :: "Session \<Rightarrow> nat" where
  "Number s = card (dom (ports s))"

subsection \<open>Close\<close>

text \<open>
  \<^verbatim>\<open>for _, v := range s.ports { v <- nil }\<close> visits the entries in an order the Go
  runtime chooses; \<open>ks\<close> is that order, a list of the keys of the table. The send is a
  plain send statement: where it cannot proceed the loop is stuck there, and the
  deferred \<^verbatim>\<open>s.conn.Close()\<close> has not run.
\<close>

fun Close_range :: "streamid list \<Rightarrow> Session \<Rightarrow> status \<times> Session" where
  "Close_range [] s = (Returned, s)"
| "Close_range (k # ks) s =
     (case ports s k of
        None \<Rightarrow> Close_range ks s
      | Some v \<Rightarrow>
          (case try_send v None of
             None \<Rightarrow> (Blocked, s)
           | Some v' \<Rightarrow> Close_range ks (s\<lparr>ports := (ports s)(k \<mapsto> v')\<rparr>)))"

definition Close :: "streamid list \<Rightarrow> Session \<Rightarrow> status \<times> Session" where
  "Close ks s =
     (case Close_range ks s of
        (Returned, s') \<Rightarrow> (Returned, emit ConnClose s')
      | r \<Rightarrow> r)"

text \<open>
  Whether every send of \<^verbatim>\<open>Close\<close> can proceed: each channel that the loop visits has
  room for the sentinel.
\<close>

definition sentinel_fits :: "streamid list \<Rightarrow> (streamid \<rightharpoonup> chan) \<Rightarrow> bool" where
  "sentinel_fits ks ps =
     list_all (\<lambda>k. case ps k of None \<Rightarrow> True | Some v \<Rightarrow> try_send v None \<noteq> None) ks"

subsection \<open>The handlers of SYN and DNS frames\<close>

text \<open>
  \<^verbatim>\<open>on_syn\<close> up to its \<^verbatim>\<open>go\<close> statement: the result is what \<^verbatim>\<open>on_syn\<close> returns
  to \<^verbatim>\<open>Run\<close>. The goroutine it starts is \<open>on_syn_go\<close>, which runs later, on the
  session as it is then.
\<close>

definition on_syn :: "world \<Rightarrow> streamid \<Rightarrow> string \<Rightarrow> Session \<Rightarrow> bool \<times> Session" where
  "on_syn w sid address s =
    (if ports s sid \<noteq> None
     then (let s1 = emit (LogErr ''frame sync stream id exist.'') s;
               b = NewFrameOneInt w MSG_FAILED sid ERR_IDEXIST;
               ((n, err), s2) = Write w b s1
           in if err \<noteq> None then (False, s2) else (True, s2))
     else (let s1 = PutIntoId sid NilChan s
           in (True, emit (Go (Go_on_syn sid address)) s1)))"

definition on_syn_go :: "world \<Rightarrow> streamid \<Rightarrow> string \<Rightarrow> Session \<Rightarrow> status \<times> Session" where
  "on_syn_go w sid address s =
    (case on_conn s of
       None \<Rightarrow> (Panicked, s)
     | Some cb \<Rightarrow>
         (let s0 = emit (OnConn ''tcp'' address sid) s
          in case cb ''tcp'' address sid of
               Inl err \<Rightarrow>
                 (let s1 = emit (LogErr (Error err)) s0;
                      b = NewFrameOneInt w MSG_FAILED sid ERR_CONNFAILED;
                      ((n, werr), s2) = Write w b s1
                  in case werr of
                       Some e \<Rightarrow> (Returned, emit (LogErr (Error e)) s2)
                     | None \<Rightarrow>
                         (let (rerr, s3) = RemovePorts sid s2
                          in case rerr of
                               Some e \<Rightarrow> (Returned, emit (LogErr (Error e)) s3)
                             | None \<Rightarrow> (Returned, s3)))
             | Inr ch \<Rightarrow>
                 (let s1 = PutIntoId sid ch s0;
                      b = NewFrameNoParam w MSG_OK sid;
                      ((n, werr), s2) = Write w b s1
                  in case werr of
                       Some e \<Rightarrow> (Returned, emit (LogErr (Error e)) s2)
                     | None \<Rightarrow> (Returned, s2))))"

definition on_dns :: "streamid \<Rightarrow> string \<Rightarrow> Session \<Rightarrow> Session" where
  "on_dns sid hostname s = emit (Go (Go_on_dns_lookup sid hostname)) s"

text \<open>The goroutine that \<^verbatim>\<open>on_dns\<close> starts.\<close>

definition on_dns_go :: "world \<Rightarrow> streamid \<Rightarrow> string \<Rightarrow> Session \<Rightarrow> status \<times> Session" where
  "on_dns_go w sid hostname s =
    (let s0 = emit (LookupHost hostname) s;
         (ipaddr, s1) =
           (case LookupIP w hostname of
              Inl err \<Rightarrow> ([], emit (LogErr (Error err)) s0)
            | Inr ips \<Rightarrow> (ips, s0))
     in case NewFrameAddr w sid ipaddr of
          Inl err \<Rightarrow> (Returned, emit (LogErr (Error err)) s1)
        | Inr b \<Rightarrow>
            (let ((n, werr), s2) = Write w b s1
             in case werr of
                  Some e \<Rightarrow> (Returned, emit (LogErr (Error e)) s2)
                | None \<Rightarrow> (Returned, s2)))"

subsection \<open>The dispatch loop\<close>

definition sendFrameInChan :: "Frame \<Rightarrow> Session \<Rightarrow> bool \<times> Session" where
  "sendFrameInChan f s =
    (let sid = GetStreamid f
     in case ports s sid of
          None \<Rightarrow> (True, emit (LogErr ''%p(%d) not exist.'') s)
        | Some ch \<Rightarrow>
            (case try_send ch (Some f) of
               Some ch' \<Rightarrow> (True, s\<lparr>ports := (ports s)(sid \<mapsto> ch')\<rparr>)
             | None \<Rightarrow>
                 (let s1 = emit (LogErr ''%p(%d) chan has fulled.'') s;
                      (err, s2) = RemovePorts sid s1
                  in (err = None, s2))))"

text \<open>The frame types of the case that \<^verbatim>\<open>Run\<close> hands to \<^verbatim>\<open>sendFrameInChan\<close>.\<close>

fun stream_scoped :: "Frame \<Rightarrow> bool" where
  "stream_scoped (FrameOK _) = True"
| "stream_scoped (FrameFAILED _ _) = True"
| "stream_scoped (FrameData _ _) = True"
| "stream_scoped (FrameAck _ _) = True"
| "stream_scoped (FrameFin _) = True"
| "stream_scoped (FrameAddr _ _) = True"
| "stream_scoped _ = False"

text \<open>
  One turn of the loop of \<^verbatim>\<open>Run\<close>, given what \<^verbatim>\<open>ReadFrame\<close> returned; the result
  is \<open>False\<close> where the loop body executes \<^verbatim>\<open>return\<close>. \<^verbatim>\<open>ch_ping\<close> is made with
  capacity 3.
\<close>

fun Run_iter :: "world \<Rightarrow> error + Frame \<Rightarrow> Session \<Rightarrow> bool \<times> Session" where
  "Run_iter w (Inl err) s = (False, emit (LogErr (Error err)) s)"
| "Run_iter w (Inr (FrameOther sid)) s = (False, emit (LogErr ''unexpected package'') s)"
| "Run_iter w (Inr (FrameSyn sid address)) s = on_syn w sid address s"
| "Run_iter w (Inr (FrameDns sid hostname)) s = (True, emit (Go (Go_on_dns sid hostname)) s)"
| "Run_iter w (Inr FramePing) s =
     (True, if length (ch_ping s) < 3 then s\<lparr>ch_ping := ch_ping s @ [1]\<rparr> else s)"
| "Run_iter w (Inr f) s = sendFrameInChan f s"

text \<open>
  \<^verbatim>\<open>Run\<close> on the results of the successive calls of \<^verbatim>\<open>ReadFrame\<close>. When the list
  is used up the loop is waiting in \<^verbatim>\<open>ReadFrame\<close> (\<open>Running\<close>). When the loop body
  returns, the deferred \<^verbatim>\<open>s.Close()\<close> runs, visiting the table in the order \<open>ks\<close>.
\<close>

fun Run :: "world \<Rightarrow> streamid list \<Rightarrow> (error + Frame) list \<Rightarrow> Session \<Rightarrow> status \<times> Session" where
  "Run w ks [] s = (Running, s)"
| "Run w ks (r # rs) s =
     (case Run_iter w r s of
        (True, s') \<Rightarrow> Run w ks rs s'
      | (False, s') \<Rightarrow> Close ks s')"

subsection \<open>The keepalive monitor\<close>

text \<open>
  What ends the \<^verbatim>\<open>select\<close> of \<^verbatim>\<open>keep_eye_open\<close> when \<^verbatim>\<open>ch_ping\<close> is empty as the
  select begins: the timer of \<^verbatim>\<open>time.After(6 * PINGTIME)\<close>, or a signal that the
  dispatch loop sends \<open>d\<close> nanoseconds later. The timer is made at the top of each turn
  of the loop, so a signal that is already queued always wins.
\<close>

datatype wakeup = Timeout | Signal nat

text \<open>The loop labelled \<^verbatim>\<open>PING\<close>: receive until the channel is empty.\<close>

fun drain :: "int list \<Rightarrow> int list" where
  "drain [] = []"
| "drain (x # xs) = drain xs"

text \<open>The branch \<^verbatim>\<open>case <-s.ch_ping\<close>, after the signal has been received.\<close>

definition keep_eye_open_ping :: "world \<Rightarrow> Session \<Rightarrow> Session" where
  "keep_eye_open_ping w s =
    (let s1 = s\<lparr>ch_ping := drain (ch_ping s)\<rparr>;
         s2 = emit (Sleep PINGTIME) (s1\<lparr>now := now s1 + PINGTIME\<rparr>);
         b = NewFrameNoParam w MSG_PING 0;
         ((n, err), s3) = Write w b s2
     in case err of
          None \<Rightarrow> s3
        | Some e \<Rightarrow> emit (LogErr (Error e)) s3)"

definition keep_eye_open_iter :: "world \<Rightarrow> streamid list \<Rightarrow> wakeup \<Rightarrow> Session \<Rightarrow> status \<times> Session" where
  "keep_eye_open_iter w ks wk s =
    (case ch_ping s of
       x # xs \<Rightarrow> (Running, keep_eye_open_ping w (s\<lparr>ch_ping := xs\<rparr>))
     | [] \<Rightarrow>
         (case wk of
            Timeout \<Rightarrow> Close ks (s\<lparr>now := now s + 6 * PINGTIME\<rparr>)
          | Signal d \<Rightarrow>
              if d < 6 * PINGTIME
              then (Running, keep_eye_open_ping w (s\<lparr>now := now s + d\<rparr>))
              else Close ks (s\<lparr>now := now s + 6 * PINGTIME\<rparr>)))"

text \<open>
  \<^verbatim>\<open>keep_eye_open\<close> on the wake-ups of its successive selects; when the list is used
  up the monitor is waiting in its select (\<open>Running\<close>).
\<close>

fun keep_eye_open :: "world \<Rightarrow> streamid list \<Rightarrow> wakeup list \<Rightarrow> Session \<Rightarrow> status \<times> Session" where
  "keep_eye_open w ks [] s = (Running, s)"
| "keep_eye_open w ks (wk # wks) s =
     (case keep_eye_open_iter w ks wk s of
        (Running, s') \<Rightarrow> keep_eye_open w ks wks s'
      | r \<Rightarrow> r)"

subsection \<open>Goroutines\<close>

text \<open>
  The function that each \<^verbatim>\<open>go\<close> statement of session.go starts:
  \<^verbatim>\<open>go s.keep_eye_open()\<close> in \<^verbatim>\<open>NewSession\<close>, \<^verbatim>\<open>go func() {...}()\<close> in \<^verbatim>\<open>on_syn\<close>,
  \<^verbatim>\<open>go s.on_dns(ft)\<close> in \<^verbatim>\<open>Run\<close>, and \<^verbatim>\<open>go func() {...}()\<close> in \<^verbatim>\<open>on_dns\<close>. A
  goroutine runs on the session as it is when it is scheduled.
\<close>

fun run_task :: "world \<Rightarrow> streamid list \<Rightarrow> wakeup list \<Rightarrow> task \<Rightarrow> Session \<Rightarrow> status \<times> Session" where
  "run_task w ks wks Go_keep_eye_open s = keep_eye_open w ks wks s"
| "run_task w ks wks (Go_on_syn sid address) s = on_syn_go w sid address s"
| "run_task w ks wks (Go_on_dns sid hostname) s = (Returned, on_dns sid hostname s)"
| "run_task w ks wks (Go_on_dns_lookup sid hostname) s = on_dns_go w sid hostname s"

subsection \<open>A transport, encoders and a resolver to run the model on\<close>

fun msg_code :: "msgtype \<Rightarrow> 8 word" where
  "msg_code MSG_OK = 1"
| "msg_code MSG_FAILED = 2"
| "msg_code MSG_PING = 9"

fun err_code :: "errcode \<Rightarrow> 8 word" where
  "err_code ERR_IDEXIST = 1"
| "err_code ERR_CONNFAILED = 2"

text \<open>A transport that accepts every buffer whole, and a resolver that knows one name.\<close>

definition test_world :: world where
  "test_world =
    \<lparr>NewFrameNoParam = (\<lambda>t sid. [msg_code t]),
     NewFrameOneInt = (\<lambda>t sid c. [msg_code t, err_code c]),
     NewFrameAddr = (\<lambda>sid ips. Inr (8 # concat ips)),
     conn_Write = (\<lambda>k b. (int (length b), None)),
     LookupIP = (\<lambda>h. if h = ''localhost'' then Inr [[127, 0, 0, 1]] else Inl (Err ''no such host''))\<rparr>"

text \<open>The same, on a transport whose every write fails.\<close>

definition broken_world :: world where
  "broken_world = test_world\<lparr>conn_Write := (\<lambda>k b. (0, Some (Err ''broken pipe'')))\<rparr>"

text \<open>The same, on a connection that has been closed.\<close>

definition closed_world :: world where
  "closed_world = test_world\<lparr>conn_Write := (\<lambda>k b. (0, Some (Err errClosing)))\<rparr>"

subsection \<open>Sessions to run the model on\<close>

text \<open>A session with streams 0 and 1 open, and one whose 65536 ids are all taken.\<close>

definition two_streams :: Session where
  "two_streams = NewSession\<lparr>ports := [0 \<mapsto> Chan CHANLEN [], 1 \<mapsto> NilChan]\<rparr>"

definition all_streams :: Session where
  "all_streams = NewSession\<lparr>next_id := 40000, ports := (\<lambda>i. Some NilChan)\<rparr>"

text \<open>
  A session where the queue of stream 5 is at capacity and stream 6 has room; a session
  with one stream; and a session whose only stream has been removed, so that its
  idle-close timer is pending.
\<close>

definition full_stream :: Session where
  "full_stream = NewSession\<lparr>ports :=
     [5 \<mapsto> Chan CHANLEN (replicate CHANLEN (Some (FrameData 5 []))), 6 \<mapsto> Chan CHANLEN []]\<rparr>"

definition one_stream :: Session where
  "one_stream = NewSession\<lparr>ports := [5 \<mapsto> Chan CHANLEN []]\<rparr>"

definition idle_session :: Session where
  "idle_session = snd (RemovePorts 0 (snd (PutIntoNextId (Chan CHANLEN []) NewSession)))"

text \<open>
  A session whose connect callback always fails; a transport whose first write is short
  (one byte taken) and whose later writes are whole; and the session left behind when an
  inbound SYN for stream 7 meets both: the callback fails and the FAILED reply is not
  written whole.
\<close>

definition failing_dial :: Session where
  "failing_dial = NewSession\<lparr>on_conn := Some (\<lambda>network address sid. Inl (Err ''connection refused''))\<rparr>"

definition flaky_world :: world where
  "flaky_world = test_world\<lparr>conn_Write := (\<lambda>k b. if k = 0 then (1, None) else (int (length b), None))\<rparr>"

definition leaked_placeholder :: Session where
  "leaked_placeholder =
     snd (on_syn_go flaky_world 7 ''bad:0'' (snd (on_syn flaky_world 7 ''bad:0'' failing_dial)))"

text \<open>The session once the monitor has handled the signal of its creation and waits again.\<close>

definition waiting_session :: Session where
  "waiting_session = snd (keep_eye_open_iter test_world [] (Signal 0) NewSession)"

text \<open>The session with one stream, its monitor waiting with no signal queued.\<close>

definition quiet_stream :: Session where
  "quiet_stream = one_stream\<lparr>ch_ping := []\<rparr>"

section \<open>Properties\<close>

subsection \<open>Basic facts\<close>

lemma conn_writes_append [simp]: "conn_writes (xs @ ys) = conn_writes xs @ conn_writes ys"
  by (induction xs rule: conn_writes.induct) simp_all

lemma stop_idleclose_fields [simp]:
  "ports (stop_idleclose s) = ports s"
  "next_id (stop_idleclose s) = next_id s"
  "trace (stop_idleclose s) = trace s"
  "ch_ping (stop_idleclose s) = ch_ping s"
  "now (stop_idleclose s) = now s"
  "on_conn (stop_idleclose s) = on_conn s"
  "idleclose (stop_idleclose s) = None"
  by (simp_all add: stop_idleclose_def split: option.splits)

subsection \<open>Write\<close>

text \<open>
  Claim C8. \<^verbatim>\<open>Write\<close> locks \<^verbatim>\<open>flock\<close>, calls the transport's write exactly once with the
  buffer it was given, and unlocks; it changes nothing else in the session. If the
  transport's error has the message of a closed connection the result is \<open>(0, EOF)\<close>; if
  the transport reports no error but took fewer bytes than the buffer holds the result is
  the transport's count with \<open>ErrShortWrite\<close>, and there is no second write; otherwise
  the result is the transport's count and error as they are. The transport is taken to
  keep the contract of \<^verbatim>\<open>io.Writer\<close>, which bounds the count by the buffer's length.
\<close>

theorem Write_contract:
  assumes "conn_Write w (length (conn_writes (trace s))) b = (n, err)"
    and "n \<le> int (length b)"
  shows "snd (Write w b s) = s\<lparr>trace := trace s @ [Lock Flock, ConnWrite b, Unlock Flock]\<rparr>
    \<and> fst (Write w b s) =
        (if (case err of Some e \<Rightarrow> Error e = errClosing | None \<Rightarrow> False) then (0, Some EOF)
         else if err = None \<and> n < int (length b) then (n, Some ErrShortWrite)
         else (n, err))"
  using assms by (auto simp: Write_def emit_def Let_def split: option.splits)

theorem Write_contract_witness:
  "conn_Write test_world (length (conn_writes (trace NewSession))) [1, 2, 3] = (3, None)
   \<and> (3::int) \<le> int (length [1, 2, 3 :: 8 word])
   \<and> snd (Write test_world [1, 2, 3] NewSession)
       = NewSession\<lparr>trace := trace NewSession @ [Lock Flock, ConnWrite [1, 2, 3], Unlock Flock]\<rparr>
   \<and> fst (Write test_world [1, 2, 3] NewSession) = (3, None)
   \<and> conn_Write flaky_world (length (conn_writes (trace NewSession))) [1, 2, 3] = (1, None)
   \<and> fst (Write flaky_world [1, 2, 3] NewSession) = (1, Some ErrShortWrite)
   \<and> conn_Write closed_world (length (conn_writes (trace NewSession))) [1, 2, 3]
       = (0, Some (Err errClosing))
   \<and> fst (Write closed_world [1, 2, 3] NewSession) = (0, Some EOF)
   \<and> conn_Write broken_world (length (conn_writes (trace NewSession))) [1, 2, 3]
       = (0, Some (Err ''broken pipe''))
   \<and> fst (Write broken_world [1, 2, 3] NewSession) = (0, Some (Err ''broken pipe''))"
  using Write_contract [of test_world NewSession "[1, 2, 3]" 3 None]
    Write_contract [of flaky_world NewSession "[1, 2, 3]" 1 None]
    Write_contract [of closed_world NewSession "[1, 2, 3]" 0 "Some (Err errClosing)"]
    Write_contract [of broken_world NewSession "[1, 2, 3]" 0 "Some (Err ''broken pipe'')"]
  by (simp add: test_world_def flaky_world_def closed_world_def broken_world_def NewSession_def
      errClosing_def)

text \<open>\<^verbatim>\<open>Write\<close> in one equation, and what its result depends on.\<close>

lemma Write_unfold:
  "Write w b s =
     ((case conn_Write w (length (conn_writes (trace s))) b of
         (n, None) \<Rightarrow> if n \<noteq> int (length b) then (n, Some ErrShortWrite) else (n, None)
       | (n, Some e) \<Rightarrow> if Error e = errClosing then (0, Some EOF) else (n, Some e)),
      s\<lparr>trace := trace s @ [Lock Flock, ConnWrite b, Unlock Flock]\<rparr>)"
  by (simp add: Write_def emit_def Let_def split: option.splits prod.splits)

lemma Write_fst_cong:
  assumes "conn_writes (trace s') = conn_writes (trace s)"
  shows "fst (Write w b s') = fst (Write w b s)"
  using assms by (simp add: Write_unfold)

lemma Write_snd:
  "snd (Write w b s) = s\<lparr>trace := trace s @ [Lock Flock, ConnWrite b, Unlock Flock]\<rparr>"
  by (simp add: Write_unfold)

subsection \<open>Allocating a stream id\<close>

text \<open>
  The loop of \<^verbatim>\<open>PutIntoNextId\<close>, entered at the \<open>i\<close>-th id after \<open>startid\<close> with all
  earlier ones taken: it stops at the first free id, or it comes back to \<open>startid\<close>
  having found every id taken.
\<close>

lemma PutIntoNextId_loop_spec:
  assumes "nid = startid + of_nat i" and "i < 65536"
    and "\<forall>j<i. ps (startid + of_nat j) \<noteq> None"
  shows "case PutIntoNextId_loop ps startid nid of
           (True, r) \<Rightarrow> ps r = None \<and> (\<exists>k<65536. r = startid + of_nat k \<and> (\<forall>j<k. ps (startid + of_nat j) \<noteq> None))
         | (False, r) \<Rightarrow> r = startid \<and> (\<forall>x. ps x \<noteq> None)"
  using assms
proof (induction ps startid nid arbitrary: i rule: PutIntoNextId_loop.induct)
  case (1 ps startid nid)
  show ?case
  proof (cases "ps nid = None")
    case True
    then show ?thesis
      using 1(2,3,4) by (subst PutIntoNextId_loop.simps) auto
  next
    case False
    note occ = this
    have all: "\<forall>j<Suc i. ps (startid + of_nat j) \<noteq> None"
      using 1(2,4) occ by (auto simp: less_Suc_eq)
    show ?thesis
    proof (cases "nid + 1 = startid")
      case True
      then have "(of_nat (Suc i) :: 16 word) = 0"
        using 1(2) by (simp add: algebra_simps)
      then have "2 ^ LENGTH(16) dvd Suc i"
        by (simp only: word_of_nat_eq_0_iff)
      then have "65536 dvd Suc i" by simp
      then have "65536 \<le> Suc i" by (rule dvd_imp_le) simp
      then have "Suc i = 65536"
        using 1(3) by simp
      have "ps x \<noteq> None" for x
      proof -
        have "x = startid + of_nat (unat (x - startid))" by simp
        moreover have "unat (x - startid) < Suc i"
          using \<open>Suc i = 65536\<close> unsigned_less [of "x - startid"] by simp
        ultimately show ?thesis using all by metis
      qed
      then show ?thesis
        using occ True by (subst PutIntoNextId_loop.simps) (simp add: Let_def)
    next
      case ne: False
      have "Suc i \<noteq> 65536"
      proof
        assume "Suc i = 65536"
        then have "(of_nat (Suc i) :: 16 word) = 0" by simp
        then have "nid + 1 = startid" using 1(2) by (simp add: algebra_simps)
        with ne show False by simp
      qed
      then have lt: "Suc i < 65536" using 1(3) by simp
      have eq: "nid + 1 = startid + of_nat (Suc i)" using 1(2) by simp
      have "case PutIntoNextId_loop ps startid (nid + 1) of
           (True, r) \<Rightarrow> ps r = None \<and> (\<exists>k<65536. r = startid + of_nat k \<and> (\<forall>j<k. ps (startid + of_nat j) \<noteq> None))
         | (False, r) \<Rightarrow> r = startid \<and> (\<forall>x. ps x \<noteq> None)"
        using 1(1) [OF occ refl ne eq lt all] .
      then show ?thesis
        using occ ne by (subst PutIntoNextId_loop.simps) (simp add: Let_def)
    qed
  qed
qed

lemma PutIntoNextId_found:
  assumes "PutIntoNextId_loop (ports s) (next_id s) (next_id s) = (True, nid)"
  shows "fst (PutIntoNextId ch s) = Inr nid"
    and "ports (snd (PutIntoNextId ch s)) = (ports s)(nid \<mapsto> ch)"
    and "next_id (snd (PutIntoNextId ch s)) = nid + 1"
    and "idleclose (snd (PutIntoNextId ch s)) = None"
  using assms by (simp_all add: PutIntoNextId_def emit_def Let_def)

lemma PutIntoNextId_exhausted:
  assumes "PutIntoNextId_loop (ports s) (next_id s) (next_id s) = (False, nid)"
  shows "fst (PutIntoNextId ch s) = Inl (Err ''run out of stream id'')"
    and "ports (snd (PutIntoNextId ch s)) = ports s"
    and "next_id (snd (PutIntoNextId ch s)) = nid"
    and "idleclose (snd (PutIntoNextId ch s)) = idleclose s"
    and "timers (snd (PutIntoNextId ch s)) = timers s"
  using assms by (simp_all add: PutIntoNextId_def emit_def Let_def)

text \<open>
  Claim C4. \<^verbatim>\<open>PutIntoNextId\<close> is a total function: its loop is defined with a proof
  that it terminates on every table. If some id is free, it returns the first free id met
  when counting up from \<open>next_id\<close> with wrap-around (every id before it in that order is
  taken), binds the queue to that id, and leaves \<open>next_id\<close> at the returned id plus one
  (16-bit addition). If all 65536 ids are taken, it returns the error and leaves the
  table and \<open>next_id\<close> as they were.
\<close>

theorem PutIntoNextId_first_free_or_exhausted:
  "((\<exists>i. ports s i = None) \<longrightarrow>
      (\<exists>k<65536.
         ports s (next_id s + of_nat k) = None
         \<and> (\<forall>j<k. ports s (next_id s + of_nat j) \<noteq> None)
         \<and> fst (PutIntoNextId ch s) = Inr (next_id s + of_nat k)
         \<and> ports (snd (PutIntoNextId ch s)) = (ports s)(next_id s + of_nat k \<mapsto> ch)
         \<and> next_id (snd (PutIntoNextId ch s)) = next_id s + of_nat k + 1))
   \<and> ((\<forall>i. ports s i \<noteq> None) \<longrightarrow>
        fst (PutIntoNextId ch s) = Inl (Err ''run out of stream id'')
        \<and> ports (snd (PutIntoNextId ch s)) = ports s
        \<and> next_id (snd (PutIntoNextId ch s)) = next_id s)"
proof -
  obtain found nid where L: "PutIntoNextId_loop (ports s) (next_id s) (next_id s) = (found, nid)"
    by fastforce
  have spec: "case PutIntoNextId_loop (ports s) (next_id s) (next_id s) of
           (True, r) \<Rightarrow> ports s r = None \<and> (\<exists>k<65536. r = next_id s + of_nat k \<and> (\<forall>j<k. ports s (next_id s + of_nat j) \<noteq> None))
         | (False, r) \<Rightarrow> r = next_id s \<and> (\<forall>x. ports s x \<noteq> None)"
    by (rule PutIntoNextId_loop_spec [where i = 0]) simp_all
  show ?thesis
  proof (cases found)
    case True
    with L have L': "PutIntoNextId_loop (ports s) (next_id s) (next_id s) = (True, nid)"
      by simp
    with spec obtain k where k: "k < 65536" "nid = next_id s + of_nat k"
        "\<forall>j<k. ports s (next_id s + of_nat j) \<noteq> None" and free: "ports s nid = None"
      by auto
    have "\<exists>k<65536.
         ports s (next_id s + of_nat k) = None
         \<and> (\<forall>j<k. ports s (next_id s + of_nat j) \<noteq> None)
         \<and> fst (PutIntoNextId ch s) = Inr (next_id s + of_nat k)
         \<and> ports (snd (PutIntoNextId ch s)) = (ports s)(next_id s + of_nat k \<mapsto> ch)
         \<and> next_id (snd (PutIntoNextId ch s)) = next_id s + of_nat k + 1"
      using k free PutIntoNextId_found [OF L', of ch]
      by (intro exI [of _ k]) simp
    moreover have "\<not> (\<forall>i. ports s i \<noteq> None)"
      using free by blast
    ultimately show ?thesis by blast
  next
    case False
    with L have L': "PutIntoNextId_loop (ports s) (next_id s) (next_id s) = (False, nid)"
      by simp
    with spec have full: "\<forall>x. ports s x \<noteq> None" and "nid = next_id s"
      by auto
    then show ?thesis
      using PutIntoNextId_exhausted [OF L', of ch] by simp
  qed
qed

text \<open>On the session with streams 0 and 1 open the id returned is 2.\<close>

lemma PutIntoNextId_two_streams:
  "fst (PutIntoNextId ch two_streams) = Inr 2"
  by (simp add: PutIntoNextId_def two_streams_def NewSession_def emit_def PutIntoNextId_loop.simps Let_def)

theorem PutIntoNextId_first_free_or_exhausted_witness:
  "(\<exists>i. ports two_streams i = None)
   \<and> (\<exists>k<65536.
         ports two_streams (next_id two_streams + of_nat k) = None
         \<and> (\<forall>j<k. ports two_streams (next_id two_streams + of_nat j) \<noteq> None)
         \<and> fst (PutIntoNextId NilChan two_streams) = Inr (next_id two_streams + of_nat k)
         \<and> ports (snd (PutIntoNextId NilChan two_streams))
             = (ports two_streams)(next_id two_streams + of_nat k \<mapsto> NilChan)
         \<and> next_id (snd (PutIntoNextId NilChan two_streams)) = next_id two_streams + of_nat k + 1)
   \<and> (\<forall>i. ports all_streams i \<noteq> None)
   \<and> fst (PutIntoNextId NilChan all_streams) = Inl (Err ''run out of stream id'')
   \<and> ports (snd (PutIntoNextId NilChan all_streams)) = ports all_streams
   \<and> next_id (snd (PutIntoNextId NilChan all_streams)) = 40000"
proof -
  have a: "\<exists>i. ports two_streams i = None"
    by (rule exI [of _ 2]) (simp add: two_streams_def)
  have b: "\<forall>i. ports all_streams i \<noteq> None"
    by (simp add: all_streams_def)
  have c: "next_id all_streams = 40000"
    by (simp add: all_streams_def)
  show ?thesis
    using a b c PutIntoNextId_first_free_or_exhausted [of two_streams NilChan]
      PutIntoNextId_first_free_or_exhausted [of all_streams NilChan]
    by simp
qed

subsection \<open>Removing a stream, and the idle-close timer\<close>

lemma RemovePorts_present:
  assumes "ports s sid = Some ch"
  shows "fst (RemovePorts sid s) = None"
    and "ports (snd (RemovePorts sid s)) = (ports s)(sid := None)"
    and "trace (snd (RemovePorts sid s)) = trace s @ [Lock Plock, Unlock Plock]"
    and "next_id (snd (RemovePorts sid s)) = next_id s"
    and "ch_ping (snd (RemovePorts sid s)) = ch_ping s"
    and "on_conn (snd (RemovePorts sid s)) = on_conn s"
    and "now (snd (RemovePorts sid s)) = now s"
  using assms by (simp_all add: RemovePorts_def emit_def Let_def)

lemma RemovePorts_absent:
  assumes "ports s sid = None"
  shows "fst (RemovePorts sid s) = Some (Err (''streamid('' @ itoa (unat sid) @ '') not exist.''))"
    and "ports (snd (RemovePorts sid s)) = ports s"
    and "trace (snd (RemovePorts sid s)) = trace s @ [Lock Plock, Unlock Plock]"
  using assms by (simp_all add: RemovePorts_def emit_def Let_def)

text \<open>
  \<^verbatim>\<open>RemovePorts\<close> makes a new timer whenever the table is empty when it is done,
  whether or not it removed anything, and it does not stop a timer that is pending.
\<close>

lemma RemovePorts_idleclose:
  "idleclose (snd (RemovePorts sid s)) =
     (if dom (ports s) - {sid} = {} then Some (length (timers s)) else idleclose s)"
  "timers (snd (RemovePorts sid s)) =
     (if dom (ports s) - {sid} = {} then timers s @ [(True, now s + IDLECLOSE)] else timers s)"
proof -
  show "idleclose (snd (RemovePorts sid s)) =
     (if dom (ports s) - {sid} = {} then Some (length (timers s)) else idleclose s)"
  proof (cases "ports s sid")
    case None
    then have "dom (ports s) - {sid} = dom (ports s)" by auto
    then show ?thesis using None by (simp add: RemovePorts_def emit_def Let_def)
  next
    case (Some ch)
    then show ?thesis by (simp add: RemovePorts_def emit_def Let_def del: dom_eq_empty_conv)
  qed
  show "timers (snd (RemovePorts sid s)) =
     (if dom (ports s) - {sid} = {} then timers s @ [(True, now s + IDLECLOSE)] else timers s)"
  proof (cases "ports s sid")
    case None
    then have "dom (ports s) - {sid} = dom (ports s)" by auto
    then show ?thesis using None by (simp add: RemovePorts_def emit_def Let_def)
  next
    case (Some ch)
    then show ?thesis by (simp add: RemovePorts_def emit_def Let_def del: dom_eq_empty_conv)
  qed
qed

text \<open>\<^verbatim>\<open>PutIntoId\<close> binds the id and touches neither the timer nor \<open>idleclose\<close>.\<close>

lemma PutIntoId_fields:
  "ports (PutIntoId sid ch s) = (ports s)(sid \<mapsto> ch)"
  "idleclose (PutIntoId sid ch s) = idleclose s"
  "timers (PutIntoId sid ch s) = timers s"
  "next_id (PutIntoId sid ch s) = next_id s"
  "on_conn (PutIntoId sid ch s) = on_conn s"
  "trace (PutIntoId sid ch s) = trace s @ [Lock Plock, Unlock Plock]"
  by (simp_all add: PutIntoId_def emit_def Let_def)

text \<open>
  Claim C2, on the code. Take the session whose only stream has been removed: the
  table is empty and timer 0 is pending. \<^verbatim>\<open>PutIntoId\<close> of stream 7, which is what an
  inbound SYN for id 7 does, leaves the table holding stream 7 with timer 0 still pending
  and still referenced by \<open>idleclose\<close>: nothing disarms it, where \<^verbatim>\<open>PutIntoNextId\<close>
  would have stopped it. When that timer goes off it closes the transport with stream 7
  in the table. And \<^verbatim>\<open>RemovePorts\<close> of the absent stream 9 on the same session fails
  and yet arms a second timer next to the first.
\<close>

theorem PutIntoId_leaves_idle_timer_armed:
  "dom (ports idle_session) = {} \<and> idleclose idle_session = Some 0
   \<and> timers idle_session = [(True, IDLECLOSE)]
   \<and> dom (ports (PutIntoId 7 NilChan idle_session)) = {7}
   \<and> idleclose (PutIntoId 7 NilChan idle_session) = Some 0
   \<and> timers (PutIntoId 7 NilChan idle_session) = [(True, IDLECLOSE)]
   \<and> dom (ports (idleclose_fires 0 (PutIntoId 7 NilChan idle_session))) = {7}
   \<and> ConnClose \<in> set (trace (idleclose_fires 0 (PutIntoId 7 NilChan idle_session)))
   \<and> fst (RemovePorts 9 idle_session) = Some (Err ''streamid(9) not exist.'')
   \<and> idleclose (snd (RemovePorts 9 idle_session)) = Some 1
   \<and> timers (snd (RemovePorts 9 idle_session)) = [(True, IDLECLOSE), (True, IDLECLOSE)]"
  by (simp add: idle_session_def PutIntoId_def RemovePorts_def PutIntoNextId_def NewSession_def
      PutIntoNextId_loop.simps stop_idleclose_def idleclose_fires_def timer_pending_def
      itoa.simps digit_char_def emit_def Let_def)

subsection \<open>A frame for a stream whose queue cannot take it\<close>

lemma Run_iter_stream_scoped:
  "stream_scoped f \<Longrightarrow> Run_iter w (Inr f) s = sendFrameInChan f s"
  by (cases f) simp_all

text \<open>
  Claim C1, as amended. For an inbound frame of one of the kinds OK, FAILED, DATA, ACK,
  FIN, ADDR whose stream id is in the table and whose queue cannot take the frame now
  (its buffer is at capacity, or it is the nil placeholder): the frame is dropped, the
  turn of the loop ends without waiting, the stream's entry is removed from the table by
  \<^verbatim>\<open>RemovePorts\<close>, and, that removal having succeeded, \<^verbatim>\<open>sendFrameInChan\<close> reports
  true: the dispatch loop goes on to the next frame and the session stays open.
\<close>

theorem sendFrameInChan_overflow:
  assumes "stream_scoped f" and "ports s (GetStreamid f) = Some ch"
    and "try_send ch (Some f) = None"
  shows "fst (Run_iter w (Inr f) s) = True
    \<and> ports (snd (Run_iter w (Inr f) s)) = (ports s)(GetStreamid f := None)
    \<and> trace (snd (Run_iter w (Inr f) s))
        = trace s @ [LogErr ''%p(%d) chan has fulled.'', Lock Plock, Unlock Plock]
    \<and> Run w ks (Inr f # rs) s = Run w ks rs (snd (Run_iter w (Inr f) s))"
proof -
  let ?s1 = "emit (LogErr ''%p(%d) chan has fulled.'') s"
  have p: "ports ?s1 (GetStreamid f) = Some ch"
    using assms(2) by (simp add: emit_def)
  have r: "Run_iter w (Inr f) s = (fst (RemovePorts (GetStreamid f) ?s1) = None, snd (RemovePorts (GetStreamid f) ?s1))"
    using assms by (simp add: Run_iter_stream_scoped sendFrameInChan_def Let_def split: prod.splits)
  show ?thesis
    unfolding r using RemovePorts_present [OF p]
    by (simp add: r emit_def)
qed

theorem sendFrameInChan_overflow_witness:
  "stream_scoped (FrameData 5 [1])
   \<and> ports full_stream (GetStreamid (FrameData 5 [1]))
       = Some (Chan CHANLEN (replicate CHANLEN (Some (FrameData 5 []))))
   \<and> try_send (Chan CHANLEN (replicate CHANLEN (Some (FrameData 5 [])))) (Some (FrameData 5 [1])) = None
   \<and> fst (Run_iter test_world (Inr (FrameData 5 [1])) full_stream) = True
   \<and> ports (snd (Run_iter test_world (Inr (FrameData 5 [1])) full_stream))
       = (ports full_stream)(GetStreamid (FrameData 5 [1]) := None)
   \<and> trace (snd (Run_iter test_world (Inr (FrameData 5 [1])) full_stream))
        = trace full_stream @ [LogErr ''%p(%d) chan has fulled.'', Lock Plock, Unlock Plock]
   \<and> Run test_world [6] [Inr (FrameData 5 [1]), Inr FramePing] full_stream
       = Run test_world [6] [Inr FramePing] (snd (Run_iter test_world (Inr (FrameData 5 [1])) full_stream))"
  using sendFrameInChan_overflow [of "FrameData 5 [1]" full_stream
      "Chan CHANLEN (replicate CHANLEN (Some (FrameData 5 [])))" test_world "[6]" "[Inr FramePing]"]
  by (simp add: full_stream_def)

text \<open>
  Claim C1 as stated fails: with the queue of stream 5 at capacity, \<^verbatim>\<open>Run\<close> reads a
  DATA frame for stream 5 and then one for stream 6. After both, the loop is still
  running and the transport has not been closed; stream 5 is gone from the table and the
  second frame sits in the queue of stream 6.
\<close>

theorem overflow_not_fatal_counterexample:
  "fst (Run test_world [6] [Inr (FrameData 5 [1]), Inr (FrameData 6 [2])] full_stream) = Running
   \<and> ConnClose \<notin> set (trace (snd (Run test_world [6] [Inr (FrameData 5 [1]), Inr (FrameData 6 [2])] full_stream)))
   \<and> ports (snd (Run test_world [6] [Inr (FrameData 5 [1]), Inr (FrameData 6 [2])] full_stream)) 5 = None
   \<and> ports (snd (Run test_world [6] [Inr (FrameData 5 [1]), Inr (FrameData 6 [2])] full_stream)) 6
       = Some (Chan CHANLEN [Some (FrameData 6 [2])])"
  by (simp add: full_stream_def NewSession_def sendFrameInChan_def RemovePorts_def emit_def
      Let_def CHANLEN_def)

subsection \<open>Close\<close>

text \<open>
  Claim C3, on the code. An inbound SYN for stream 7 reserves the id with the nil
  channel while the connect is under way. \<^verbatim>\<open>Close\<close> on that session is stuck in its
  send to the nil channel, and the transport is not closed. The same happens on the
  session where the queue of stream 5 is at capacity: \<^verbatim>\<open>Close\<close> is stuck at stream 5
  for as long as no receiver takes a frame from it.
\<close>

theorem Close_blocks_on_placeholder:
  "ports (snd (on_syn test_world 7 ''example.com:80'' NewSession)) 7 = Some NilChan
   \<and> fst (Close [7] (snd (on_syn test_world 7 ''example.com:80'' NewSession))) = Blocked
   \<and> ConnClose \<notin> set (trace (snd (Close [7] (snd (on_syn test_world 7 ''example.com:80'' NewSession)))))
   \<and> fst (Close [5, 6] full_stream) = Blocked
   \<and> ConnClose \<notin> set (trace (snd (Close [5, 6] full_stream)))"
  by (simp add: on_syn_def PutIntoId_def full_stream_def NewSession_def Close_def emit_def
      Let_def CHANLEN_def)

text \<open>
  When \<^verbatim>\<open>Close\<close> returns and when it is stuck, for a visiting order without
  repetition: it returns, having closed the transport as its last step, exactly when
  every channel it visits has room for the sentinel; otherwise it is stuck in a send and
  the transport is not closed.
\<close>

lemma sentinel_fits_simps [simp]:
  "sentinel_fits [] ps = True"
  "sentinel_fits (k # ks) ps =
     ((case ps k of None \<Rightarrow> True | Some v \<Rightarrow> try_send v None \<noteq> None) \<and> sentinel_fits ks ps)"
  by (simp_all add: sentinel_fits_def)

lemma sentinel_fits_upd:
  "k \<notin> set ks \<Longrightarrow> sentinel_fits ks (ps(k \<mapsto> v)) = sentinel_fits ks ps"
  by (induction ks) auto

lemma Close_range_fields:
  "trace (snd (Close_range ks s)) = trace s"
  "now (snd (Close_range ks s)) = now s"
  "dom (ports (snd (Close_range ks s))) = dom (ports s)"
  by (induction ks arbitrary: s; auto split: option.splits)+

lemma Close_range_status:
  "distinct ks \<Longrightarrow>
     fst (Close_range ks s) = (if sentinel_fits ks (ports s) then Returned else Blocked)"
proof (induction ks arbitrary: s)
  case Nil
  then show ?case by simp
next
  case (Cons k ks)
  then have d: "distinct ks" and nk: "k \<notin> set ks" by simp_all
  show ?case
  proof (cases "ports s k")
    case None
    then show ?thesis using Cons.IH [OF d, of s] by simp
  next
    case (Some v)
    show ?thesis
    proof (cases "try_send v None")
      case None
      then show ?thesis using Some by simp
    next
      case (Some v')
      have eq: "sentinel_fits ks (ports (s\<lparr>ports := (ports s)(k \<mapsto> v')\<rparr>))
          = sentinel_fits ks (ports s)"
        using sentinel_fits_upd [OF nk, of "ports s" v'] by simp
      have "fst (Close_range (k # ks) s) = fst (Close_range ks (s\<lparr>ports := (ports s)(k \<mapsto> v')\<rparr>))"
        using \<open>ports s k = Some v\<close> Some by simp
      also have "\<dots> = (if sentinel_fits ks (ports s) then Returned else Blocked)"
        unfolding Cons.IH [OF d] eq by (rule refl)
      also have "\<dots> = (if sentinel_fits (k # ks) (ports s) then Returned else Blocked)"
        using \<open>ports s k = Some v\<close> Some by simp
      finally show ?thesis .
    qed
  qed
qed

lemma Close_spec:
  assumes "distinct ks"
  shows "fst (Close ks s) = (if sentinel_fits ks (ports s) then Returned else Blocked)"
    and "trace (snd (Close ks s)) = trace s @ (if sentinel_fits ks (ports s) then [ConnClose] else [])"
    and "now (snd (Close ks s)) = now s"
proof -
  obtain st s' where r: "Close_range ks s = (st, s')" by fastforce
  have st: "st = (if sentinel_fits ks (ports s) then Returned else Blocked)"
    using Close_range_status [OF assms, of s] r by simp
  have f: "trace s' = trace s" "now s' = now s"
    using Close_range_fields(1,2) [of ks s] r by simp_all
  show "fst (Close ks s) = (if sentinel_fits ks (ports s) then Returned else Blocked)"
    using r st by (simp add: Close_def)
  show "trace (snd (Close ks s)) = trace s @ (if sentinel_fits ks (ports s) then [ConnClose] else [])"
    using r st f by (simp add: Close_def emit_def)
  show "now (snd (Close ks s)) = now s"
    using r st f by (simp add: Close_def emit_def)
qed

subsection \<open>A SYN for an id that is taken\<close>

text \<open>
  Claim C7, as amended. For an inbound SYN whose stream id is already in the table,
  \<^verbatim>\<open>on_syn\<close> logs the collision and sends FAILED with the reason id-exists through
  \<^verbatim>\<open>Write\<close>; the table and every other field stay as they were. The collision alone
  does not end the session: \<^verbatim>\<open>on_syn\<close> reports true, and the dispatch loop goes on,
  exactly when that write succeeds (no error, the whole buffer taken). When the write
  fails \<^verbatim>\<open>on_syn\<close> reports false and the loop ends by running the deferred
  \<^verbatim>\<open>Close\<close>: \<^verbatim>\<open>Run\<close> returns with the transport closed when every queue of the table
  has room for the sentinel of \<^verbatim>\<open>Close\<close>, and is stuck in \<^verbatim>\<open>Close\<close> with the
  transport open when one has not.
\<close>

theorem on_syn_collision:
  assumes "ports s sid = Some ch"
    and "conn_Write w (length (conn_writes (trace s))) (NewFrameOneInt w MSG_FAILED sid ERR_IDEXIST) = (n, err)"
  shows "snd (on_syn w sid address s)
       = s\<lparr>trace := trace s @ [LogErr ''frame sync stream id exist.'', Lock Flock,
             ConnWrite (NewFrameOneInt w MSG_FAILED sid ERR_IDEXIST), Unlock Flock]\<rparr>
    \<and> fst (on_syn w sid address s)
       = (err = None \<and> n = int (length (NewFrameOneInt w MSG_FAILED sid ERR_IDEXIST)))
    \<and> Run w ks (Inr (FrameSyn sid address) # rs) s
       = (if err = None \<and> n = int (length (NewFrameOneInt w MSG_FAILED sid ERR_IDEXIST))
          then Run w ks rs (snd (on_syn w sid address s))
          else Close ks (snd (on_syn w sid address s)))
    \<and> (\<not> (err = None \<and> n = int (length (NewFrameOneInt w MSG_FAILED sid ERR_IDEXIST)))
         \<and> distinct ks \<longrightarrow>
        fst (Run w ks (Inr (FrameSyn sid address) # rs) s)
          = (if sentinel_fits ks (ports s) then Returned else Blocked)
        \<and> trace (snd (Run w ks (Inr (FrameSyn sid address) # rs) s))
          = trace s @ [LogErr ''frame sync stream id exist.'', Lock Flock,
               ConnWrite (NewFrameOneInt w MSG_FAILED sid ERR_IDEXIST), Unlock Flock]
            @ (if sentinel_fits ks (ports s) then [ConnClose] else []))"
proof -
  let ?b = "NewFrameOneInt w MSG_FAILED sid ERR_IDEXIST"
  let ?s1 = "emit (LogErr ''frame sync stream id exist.'') s"
  let ?s2 = "s\<lparr>trace := trace s @ [LogErr ''frame sync stream id exist.'', Lock Flock,
             ConnWrite ?b, Unlock Flock]\<rparr>"
  have a: "snd (on_syn w sid address s) = ?s2"
    using assms by (simp add: on_syn_def Write_unfold Let_def emit_def split: option.splits)
  have b: "fst (on_syn w sid address s) = (err = None \<and> n = int (length ?b))"
    using assms by (auto simp add: on_syn_def Write_unfold Let_def emit_def split: option.splits)
  have c: "Run w ks (Inr (FrameSyn sid address) # rs) s
       = (if fst (on_syn w sid address s)
          then Run w ks rs (snd (on_syn w sid address s))
          else Close ks (snd (on_syn w sid address s)))"
    by (simp split: prod.splits)
  have d: "fst (Run w ks (Inr (FrameSyn sid address) # rs) s)
          = (if sentinel_fits ks (ports s) then Returned else Blocked)
        \<and> trace (snd (Run w ks (Inr (FrameSyn sid address) # rs) s))
          = trace s @ [LogErr ''frame sync stream id exist.'', Lock Flock, ConnWrite ?b, Unlock Flock]
            @ (if sentinel_fits ks (ports s) then [ConnClose] else [])"
    if "\<not> (err = None \<and> n = int (length ?b))" and dk: "distinct ks"
  proof -
    have "Run w ks (Inr (FrameSyn sid address) # rs) s = Close ks (snd (on_syn w sid address s))"
      by (simp only: c b that(1) if_False)
    then have "Run w ks (Inr (FrameSyn sid address) # rs) s = Close ks ?s2"
      by (simp only: a)
    then show ?thesis
      using Close_spec(1,2) [OF dk, of ?s2] by (simp del: Run.simps)
  qed
  have c': "Run w ks (Inr (FrameSyn sid address) # rs) s
       = (if err = None \<and> n = int (length ?b)
          then Run w ks rs (snd (on_syn w sid address s))
          else Close ks (snd (on_syn w sid address s)))"
    by (simp only: c b)
  have d': "\<not> (err = None \<and> n = int (length ?b)) \<and> distinct ks \<longrightarrow>
        fst (Run w ks (Inr (FrameSyn sid address) # rs) s)
          = (if sentinel_fits ks (ports s) then Returned else Blocked)
        \<and> trace (snd (Run w ks (Inr (FrameSyn sid address) # rs) s))
          = trace s @ [LogErr ''frame sync stream id exist.'', Lock Flock, ConnWrite ?b, Unlock Flock]
            @ (if sentinel_fits ks (ports s) then [ConnClose] else [])"
    using d by blast
  show ?thesis
    by (intro conjI) (rule a, rule b, rule c', rule d')
qed

theorem on_syn_collision_witness:
  "ports one_stream 5 = Some (Chan CHANLEN [])
   \<and> conn_Write test_world (length (conn_writes (trace one_stream)))
        (NewFrameOneInt test_world MSG_FAILED 5 ERR_IDEXIST) = (2, None)
   \<and> snd (on_syn test_world 5 ''example.com:80'' one_stream)
       = one_stream\<lparr>trace := trace one_stream @ [LogErr ''frame sync stream id exist.'', Lock Flock,
             ConnWrite (NewFrameOneInt test_world MSG_FAILED 5 ERR_IDEXIST), Unlock Flock]\<rparr>
   \<and> fst (on_syn test_world 5 ''example.com:80'' one_stream) = True
   \<and> Run test_world [5] [Inr (FrameSyn 5 ''example.com:80''), Inr FramePing] one_stream
       = Run test_world [5] [Inr FramePing] (snd (on_syn test_world 5 ''example.com:80'' one_stream))
   \<and> conn_Write broken_world (length (conn_writes (trace one_stream)))
        (NewFrameOneInt broken_world MSG_FAILED 5 ERR_IDEXIST) = (0, Some (Err ''broken pipe''))
   \<and> distinct [5 :: streamid] \<and> sentinel_fits [5] (ports one_stream)
   \<and> fst (Run broken_world [5] [Inr (FrameSyn 5 ''example.com:80''), Inr FramePing] one_stream) = Returned
   \<and> trace (snd (Run broken_world [5] [Inr (FrameSyn 5 ''example.com:80''), Inr FramePing] one_stream))
       = trace one_stream @ [LogErr ''frame sync stream id exist.'', Lock Flock,
           ConnWrite (NewFrameOneInt broken_world MSG_FAILED 5 ERR_IDEXIST), Unlock Flock, ConnClose]"
proof -
  have p: "ports one_stream 5 = Some (Chan CHANLEN [])"
    by (simp add: one_stream_def)
  have w1: "conn_Write test_world (length (conn_writes (trace one_stream)))
        (NewFrameOneInt test_world MSG_FAILED 5 ERR_IDEXIST) = (2, None)"
    by (simp add: test_world_def)
  have w2: "conn_Write broken_world (length (conn_writes (trace one_stream)))
        (NewFrameOneInt broken_world MSG_FAILED 5 ERR_IDEXIST) = (0, Some (Err ''broken pipe''))"
    by (simp add: broken_world_def test_world_def)
  have f: "distinct [5 :: streamid] \<and> sentinel_fits [5] (ports one_stream)"
    by (simp add: one_stream_def CHANLEN_def)
  have l: "(2::int) = int (length (NewFrameOneInt test_world MSG_FAILED 5 ERR_IDEXIST))"
    by (simp add: test_world_def)
  note T1 = on_syn_collision [OF p w1, of "''example.com:80''" "[5]" "[Inr FramePing]"]
  note T2 = on_syn_collision [OF p w2, of "''example.com:80''" "[5]" "[Inr FramePing]"]
  have a1: "snd (on_syn test_world 5 ''example.com:80'' one_stream)
       = one_stream\<lparr>trace := trace one_stream @ [LogErr ''frame sync stream id exist.'', Lock Flock,
             ConnWrite (NewFrameOneInt test_world MSG_FAILED 5 ERR_IDEXIST), Unlock Flock]\<rparr>"
    by (rule T1 [THEN conjunct1])
  have a2: "fst (on_syn test_world 5 ''example.com:80'' one_stream) = True"
    using T1 [THEN conjunct2, THEN conjunct1] l by simp
  have a3: "Run test_world [5] [Inr (FrameSyn 5 ''example.com:80''), Inr FramePing] one_stream
       = Run test_world [5] [Inr FramePing] (snd (on_syn test_world 5 ''example.com:80'' one_stream))"
    using T1 [THEN conjunct2, THEN conjunct2, THEN conjunct1] l by (simp del: Run.simps)
  have a4: "fst (Run broken_world [5] [Inr (FrameSyn 5 ''example.com:80''), Inr FramePing] one_stream) = Returned
   \<and> trace (snd (Run broken_world [5] [Inr (FrameSyn 5 ''example.com:80''), Inr FramePing] one_stream))
       = trace one_stream @ [LogErr ''frame sync stream id exist.'', Lock Flock,
           ConnWrite (NewFrameOneInt broken_world MSG_FAILED 5 ERR_IDEXIST), Unlock Flock, ConnClose]"
    using T2 [THEN conjunct2, THEN conjunct2, THEN conjunct2] f by (simp del: Run.simps)
  show ?thesis
    using p w1 w2 f a1 a2 a3 a4 by (simp del: Run.simps)
qed

text \<open>
  Claim C7 as stated fails: on a transport whose writes fail, a SYN for the open stream 5
  makes \<^verbatim>\<open>on_syn\<close> report false; \<^verbatim>\<open>Run\<close> returns through \<^verbatim>\<open>Close\<close>, the
  transport is closed, and the PING that follows is never read.
\<close>

theorem on_syn_collision_fatal_counterexample:
  "ports one_stream 5 = Some (Chan CHANLEN [])
   \<and> fst (on_syn broken_world 5 ''example.com:80'' one_stream) = False
   \<and> fst (Run broken_world [5] [Inr (FrameSyn 5 ''example.com:80''), Inr FramePing] one_stream) = Returned
   \<and> ConnClose \<in> set (trace (snd (Run broken_world [5] [Inr (FrameSyn 5 ''example.com:80''), Inr FramePing] one_stream)))
   \<and> ch_ping (snd (Run broken_world [5] [Inr (FrameSyn 5 ''example.com:80''), Inr FramePing] one_stream)) = [1]"
  by (simp add: one_stream_def NewSession_def broken_world_def test_world_def on_syn_def Write_def
      Close_def emit_def Let_def CHANLEN_def errClosing_def)

subsection \<open>A SYN for a free id whose connect fails\<close>

lemma on_syn_fresh:
  assumes "ports s sid = None"
  shows "on_syn w sid address s = (True, emit (Go (Go_on_syn sid address)) (PutIntoId sid NilChan s))"
  using assms by (simp add: on_syn_def Let_def)

lemma on_syn_go_connect_failed:
  assumes "on_conn s = Some cb" and "cb ''tcp'' address sid = Inl e"
    and "conn_Write w (length (conn_writes (trace s))) (NewFrameOneInt w MSG_FAILED sid ERR_CONNFAILED) = (n, err)"
  shows "on_syn_go w sid address s =
    (let b = NewFrameOneInt w MSG_FAILED sid ERR_CONNFAILED;
         s2 = s\<lparr>trace := trace s @ [OnConn ''tcp'' address sid, LogErr (Error e), Lock Flock, ConnWrite b, Unlock Flock]\<rparr>
     in case (case err of
                None \<Rightarrow> if n \<noteq> int (length b) then Some ErrShortWrite else None
              | Some e' \<Rightarrow> if Error e' = errClosing then Some EOF else Some e') of
          Some we \<Rightarrow> (Returned, emit (LogErr (Error we)) s2)
        | None \<Rightarrow>
            (case fst (RemovePorts sid s2) of
               Some re \<Rightarrow> (Returned, emit (LogErr (Error re)) (snd (RemovePorts sid s2)))
             | None \<Rightarrow> (Returned, snd (RemovePorts sid s2))))"
proof -
  show ?thesis
    using assms
    by (simp add: on_syn_go_def Write_unfold Let_def emit_def split: option.splits prod.splits)
qed

text \<open>
  Claim C6, as amended. For an inbound SYN whose stream id is not in the table,
  \<^verbatim>\<open>on_syn\<close> binds the id to the nil placeholder, then starts the goroutine that
  calls the connect callback, and reports true to the dispatch loop. If the callback
  returns an error, the goroutine logs it and sends FAILED with the reason
  connect-failed; if that write succeeds it then removes the entry, so the table is what
  it was before the SYN and the id is free again. The goroutine returns without closing
  anything. (What happens when the write fails is the subject of claim C10.)
\<close>

theorem on_syn_connect_failed:
  assumes "ports s sid = None" and "on_conn s = Some cb" and "cb ''tcp'' address sid = Inl e"
    and "conn_Write w (length (conn_writes (trace s))) (NewFrameOneInt w MSG_FAILED sid ERR_CONNFAILED)
           = (int (length (NewFrameOneInt w MSG_FAILED sid ERR_CONNFAILED)), None)"
  shows "fst (on_syn w sid address s) = True
    \<and> ports (snd (on_syn w sid address s)) = (ports s)(sid \<mapsto> NilChan)
    \<and> trace (snd (on_syn w sid address s))
        = trace s @ [Lock Plock, Unlock Plock, Go (Go_on_syn sid address)]
    \<and> fst (on_syn_go w sid address (snd (on_syn w sid address s))) = Returned
    \<and> ports (snd (on_syn_go w sid address (snd (on_syn w sid address s)))) = ports s
    \<and> trace (snd (on_syn_go w sid address (snd (on_syn w sid address s))))
        = trace (snd (on_syn w sid address s))
          @ [OnConn ''tcp'' address sid, LogErr (Error e), Lock Flock,
             ConnWrite (NewFrameOneInt w MSG_FAILED sid ERR_CONNFAILED), Unlock Flock,
             Lock Plock, Unlock Plock]"
proof -
  let ?b = "NewFrameOneInt w MSG_FAILED sid ERR_CONNFAILED"
  let ?s1 = "snd (on_syn w sid address s)"
  have s1: "?s1 = emit (Go (Go_on_syn sid address)) (PutIntoId sid NilChan s)"
    and r1: "fst (on_syn w sid address s) = True"
    using assms(1) by (simp_all add: on_syn_fresh)
  have p1: "ports ?s1 = (ports s)(sid \<mapsto> NilChan)"
    and t1: "trace ?s1 = trace s @ [Lock Plock, Unlock Plock, Go (Go_on_syn sid address)]"
    and c1: "on_conn ?s1 = Some cb"
    using assms(2) by (simp_all add: s1 emit_def PutIntoId_fields)
  have w1: "conn_Write w (length (conn_writes (trace ?s1))) ?b = (int (length ?b), None)"
    using assms(4) by (simp add: t1)
  let ?s2 = "?s1\<lparr>trace := trace ?s1 @ [OnConn ''tcp'' address sid, LogErr (Error e), Lock Flock, ConnWrite ?b, Unlock Flock]\<rparr>"
  have p2: "ports ?s2 sid = Some NilChan"
    by (simp add: p1)
  have go: "on_syn_go w sid address ?s1 = (Returned, snd (RemovePorts sid ?s2))"
    using on_syn_go_connect_failed [OF c1 assms(3) w1] RemovePorts_present(1) [OF p2]
    by (simp add: Let_def)
  have "ports (snd (RemovePorts sid ?s2)) = (ports ?s2)(sid := None)"
    by (rule RemovePorts_present(2) [OF p2])
  also have "\<dots> = ports s"
    using assms(1) by (auto simp add: p1 fun_eq_iff)
  finally have p3: "ports (snd (RemovePorts sid ?s2)) = ports s" .
  have t3: "trace (snd (RemovePorts sid ?s2)) = trace ?s2 @ [Lock Plock, Unlock Plock]"
    by (rule RemovePorts_present(3) [OF p2])
  show ?thesis
    using r1 p1 t1 p3 t3 by (simp add: go)
qed

theorem on_syn_connect_failed_witness:
  "ports failing_dial 7 = None
   \<and> on_conn failing_dial = Some (\<lambda>network address sid. Inl (Err ''connection refused''))
   \<and> conn_Write test_world (length (conn_writes (trace failing_dial)))
        (NewFrameOneInt test_world MSG_FAILED 7 ERR_CONNFAILED)
        = (int (length (NewFrameOneInt test_world MSG_FAILED 7 ERR_CONNFAILED)), None)
   \<and> fst (on_syn test_world 7 ''bad:0'' failing_dial) = True
   \<and> ports (snd (on_syn test_world 7 ''bad:0'' failing_dial)) = (ports failing_dial)(7 \<mapsto> NilChan)
   \<and> fst (on_syn_go test_world 7 ''bad:0'' (snd (on_syn test_world 7 ''bad:0'' failing_dial))) = Returned
   \<and> ports (snd (on_syn_go test_world 7 ''bad:0'' (snd (on_syn test_world 7 ''bad:0'' failing_dial))))
       = ports failing_dial"
  using on_syn_connect_failed [of failing_dial 7 "\<lambda>network address sid. Inl (Err ''connection refused'')"
      "''bad:0''" "Err ''connection refused''" test_world]
  by (simp add: failing_dial_def NewSession_def test_world_def)

text \<open>
  Claim C6 as stated fails: when the callback fails on a transport whose writes fail, the
  goroutine returns with stream 7 still bound to the placeholder.
\<close>

theorem connect_failed_reply_lost_counterexample:
  "ports failing_dial 7 = None
   \<and> fst (on_syn broken_world 7 ''bad:0'' failing_dial) = True
   \<and> fst (on_syn_go broken_world 7 ''bad:0'' (snd (on_syn broken_world 7 ''bad:0'' failing_dial))) = Returned
   \<and> ports (snd (on_syn_go broken_world 7 ''bad:0'' (snd (on_syn broken_world 7 ''bad:0'' failing_dial)))) 7
       = Some NilChan"
  by (simp add: failing_dial_def NewSession_def broken_world_def test_world_def on_syn_def
      on_syn_go_def PutIntoId_def Write_unfold emit_def Let_def errClosing_def)

text \<open>
  Claim C10, as amended. If the connect callback fails and the write of the FAILED reply
  fails too, the goroutine logs the write error and returns before the removal step: the
  session is as it was when the goroutine started, apart from the trace, so an id that
  was bound to the placeholder is still bound to it when the goroutine ends, and nothing
  in this handler removes it later. (It stays until something else removes it: see the
  counterexample below.)
\<close>

theorem on_syn_go_reply_fails:
  assumes "on_conn s = Some cb" and "cb ''tcp'' address sid = Inl e"
    and "conn_Write w (length (conn_writes (trace s))) (NewFrameOneInt w MSG_FAILED sid ERR_CONNFAILED) = (n, err)"
    and "err \<noteq> None \<or> n \<noteq> int (length (NewFrameOneInt w MSG_FAILED sid ERR_CONNFAILED))"
  shows "on_syn_go w sid address s =
     (Returned,
      s\<lparr>trace := trace s @
          [OnConn ''tcp'' address sid, LogErr (Error e), Lock Flock,
           ConnWrite (NewFrameOneInt w MSG_FAILED sid ERR_CONNFAILED), Unlock Flock,
           LogErr (Error (case err of
                            None \<Rightarrow> ErrShortWrite
                          | Some e' \<Rightarrow> if Error e' = errClosing then EOF else e'))]\<rparr>)
     \<and> ports (snd (on_syn_go w sid address s)) sid = ports s sid"
proof -
  have "on_syn_go w sid address s =
     (Returned,
      s\<lparr>trace := trace s @
          [OnConn ''tcp'' address sid, LogErr (Error e), Lock Flock,
           ConnWrite (NewFrameOneInt w MSG_FAILED sid ERR_CONNFAILED), Unlock Flock,
           LogErr (Error (case err of
                            None \<Rightarrow> ErrShortWrite
                          | Some e' \<Rightarrow> if Error e' = errClosing then EOF else e'))]\<rparr>)"
    using assms(4) on_syn_go_connect_failed [OF assms(1,2,3)]
    by (auto simp add: Let_def emit_def split: option.splits)
  then show ?thesis by simp
qed

theorem on_syn_go_reply_fails_witness:
  "on_conn (snd (on_syn flaky_world 7 ''bad:0'' failing_dial))
       = Some (\<lambda>network address sid. Inl (Err ''connection refused''))
   \<and> conn_Write flaky_world (length (conn_writes (trace (snd (on_syn flaky_world 7 ''bad:0'' failing_dial)))))
        (NewFrameOneInt flaky_world MSG_FAILED 7 ERR_CONNFAILED) = (1, None)
   \<and> (1::int) \<noteq> int (length (NewFrameOneInt flaky_world MSG_FAILED 7 ERR_CONNFAILED))
   \<and> ports (snd (on_syn flaky_world 7 ''bad:0'' failing_dial)) 7 = Some NilChan
   \<and> fst (on_syn_go flaky_world 7 ''bad:0'' (snd (on_syn flaky_world 7 ''bad:0'' failing_dial))) = Returned
   \<and> ports leaked_placeholder 7 = Some NilChan"
  using on_syn_go_reply_fails [of "snd (on_syn flaky_world 7 ''bad:0'' failing_dial)"
      "\<lambda>network address sid. Inl (Err ''connection refused'')" "''bad:0''" 7
      "Err ''connection refused''" flaky_world 1 None]
  by (simp add: leaked_placeholder_def failing_dial_def NewSession_def flaky_world_def test_world_def
      on_syn_def PutIntoId_def emit_def Let_def)

text \<open>
  Claim C10 as stated fails in its last part: the placeholder left for stream 7 does not
  stay until the session is closed. An inbound FIN for stream 7 finds the nil channel
  unable to take the frame, and \<^verbatim>\<open>sendFrameInChan\<close> removes the entry while the
  dispatch loop keeps running and the transport stays open.
\<close>

theorem leaked_placeholder_evicted_counterexample:
  "ports leaked_placeholder 7 = Some NilChan
   \<and> fst (Run flaky_world [] [Inr (FrameFin 7)] leaked_placeholder) = Running
   \<and> ports (snd (Run flaky_world [] [Inr (FrameFin 7)] leaked_placeholder)) 7 = None
   \<and> ConnClose \<notin> set (trace (snd (Run flaky_world [] [Inr (FrameFin 7)] leaked_placeholder)))"
  by (simp add: leaked_placeholder_def failing_dial_def NewSession_def flaky_world_def test_world_def
      on_syn_def on_syn_go_def PutIntoId_def Write_unfold sendFrameInChan_def RemovePorts_def
      emit_def Let_def errClosing_def)

subsection \<open>A DNS request\<close>

text \<open>What the goroutine started by \<^verbatim>\<open>on_dns\<close> does to the session it runs on.\<close>

lemma on_dns_go_spec:
  "fst (on_dns_go w sid hostname s) = Returned
   \<and> (\<exists>evs. snd (on_dns_go w sid hostname s) = s\<lparr>trace := trace s @ evs\<rparr>
         \<and> ConnClose \<notin> set evs
         \<and> conn_writes evs =
             (case NewFrameAddr w sid (case LookupIP w hostname of Inl e \<Rightarrow> [] | Inr ips \<Rightarrow> ips) of
                Inl e \<Rightarrow> []
              | Inr b \<Rightarrow> [b])
         \<and> (\<forall>e. LookupIP w hostname = Inl e \<longrightarrow> LogErr (Error e) \<in> set evs)
         \<and> (\<forall>e. NewFrameAddr w sid (case LookupIP w hostname of Inl e \<Rightarrow> [] | Inr ips \<Rightarrow> ips) = Inl e
                \<longrightarrow> LogErr (Error e) \<in> set evs)
         \<and> (\<forall>b e. NewFrameAddr w sid (case LookupIP w hostname of Inl e \<Rightarrow> [] | Inr ips \<Rightarrow> ips) = Inr b
                \<longrightarrow> snd (fst (Write w b s)) = Some e \<longrightarrow> LogErr (Error e) \<in> set evs))"
proof -
  let ?ips = "case LookupIP w hostname of Inl e \<Rightarrow> [] | Inr ips \<Rightarrow> ips"
  let ?pre = "LookupHost hostname # (case LookupIP w hostname of Inl e \<Rightarrow> [LogErr (Error e)] | Inr ips \<Rightarrow> [])"
  let ?s1 = "s\<lparr>trace := trace s @ ?pre\<rparr>"
  have nw: "conn_writes ?pre = []" and nc: "ConnClose \<notin> set ?pre"
    by (simp_all split: sum.splits)
  have unf: "on_dns_go w sid hostname s =
     (case NewFrameAddr w sid ?ips of
        Inl err \<Rightarrow> (Returned, emit (LogErr (Error err)) ?s1)
      | Inr b \<Rightarrow>
          (case snd (fst (Write w b ?s1)) of
             Some e \<Rightarrow> (Returned, emit (LogErr (Error e)) (snd (Write w b ?s1)))
           | None \<Rightarrow> (Returned, snd (Write w b ?s1))))"
    by (simp add: on_dns_go_def emit_def Let_def split: sum.splits prod.splits option.splits)
  have R: "fst (on_dns_go w sid hostname s) = Returned"
    by (simp add: unf split: sum.splits option.splits)
  show ?thesis
  proof (cases "NewFrameAddr w sid ?ips")
    case (Inl err)
    let ?evs = "?pre @ [LogErr (Error err)]"
    have "snd (on_dns_go w sid hostname s) = s\<lparr>trace := trace s @ ?evs\<rparr>"
      by (simp add: unf Inl emit_def)
    moreover have "ConnClose \<notin> set ?evs" by (simp split: sum.splits)
    moreover have "conn_writes ?evs = []" by (simp split: sum.splits)
    moreover have "\<forall>e. LookupIP w hostname = Inl e \<longrightarrow> LogErr (Error e) \<in> set ?evs" by simp
    moreover have "LogErr (Error err) \<in> set ?evs" by simp
    ultimately show ?thesis using R Inl
      by (intro conjI exI [of _ ?evs]) simp_all
  next
    case (Inr b)
    have same: "fst (Write w b ?s1) = fst (Write w b s)"
      by (rule Write_fst_cong) (simp split: sum.splits)
    let ?post = "case snd (fst (Write w b s)) of Some e \<Rightarrow> [LogErr (Error e)] | None \<Rightarrow> []"
    let ?evs = "?pre @ [Lock Flock, ConnWrite b, Unlock Flock] @ ?post"
    have "snd (on_dns_go w sid hostname s) = s\<lparr>trace := trace s @ ?evs\<rparr>"
      by (simp add: unf Inr same Write_snd emit_def split: option.splits)
    moreover have "ConnClose \<notin> set ?evs" by (simp split: option.splits sum.splits)
    moreover have "conn_writes ?evs = [b]" by (simp split: option.splits sum.splits)
    moreover have "\<forall>e. LookupIP w hostname = Inl e \<longrightarrow> LogErr (Error e) \<in> set ?evs" by simp
    moreover have "\<forall>e. snd (fst (Write w b s)) = Some e \<longrightarrow> LogErr (Error e) \<in> set ?evs" by simp
    ultimately show ?thesis using R Inr
      by (intro conjI exI [of _ ?evs]) simp_all
  qed
qed

text \<open>
  Claim C9. For every inbound DNS request the dispatch loop starts \<^verbatim>\<open>on_dns\<close> as a
  goroutine and goes on to the next frame; \<^verbatim>\<open>on_dns\<close> starts the goroutine that does
  the work and returns. That goroutine resolves the name, taking the empty address list
  when the resolver fails (the failure is logged), and encodes an ADDR frame for the
  stream id with that list. It always returns, and all it does to the session is append
  events to the trace: no close of the transport; as writes on the transport exactly
  the encoded ADDR frame, or none when the encoder fails, so never a FAILED frame; and a
  log entry for the resolver's error, the encoder's error and the error of \<^verbatim>\<open>Write\<close>,
  whichever occur. The table, the timers and the rest of the session are untouched.
  Here \<open>s\<close> is the session when the frame is read, \<open>s1\<close> the session when
  \<^verbatim>\<open>on_dns\<close> is scheduled, and \<open>s2\<close> the session when its goroutine is scheduled.
\<close>

theorem dns_request_replies_addr:
  "Run_iter w (Inr (FrameDns sid hostname)) s
     = (True, s\<lparr>trace := trace s @ [Go (Go_on_dns sid hostname)]\<rparr>)
   \<and> Run w ks (Inr (FrameDns sid hostname) # rs) s
     = Run w ks rs (s\<lparr>trace := trace s @ [Go (Go_on_dns sid hostname)]\<rparr>)
   \<and> run_task w ks wks (Go_on_dns sid hostname) s1
     = (Returned, on_dns sid hostname s1)
   \<and> on_dns sid hostname s1 = s1\<lparr>trace := trace s1 @ [Go (Go_on_dns_lookup sid hostname)]\<rparr>
   \<and> run_task w ks wks (Go_on_dns_lookup sid hostname) s2 = on_dns_go w sid hostname s2
   \<and> fst (on_dns_go w sid hostname s2) = Returned
   \<and> (\<exists>evs. snd (on_dns_go w sid hostname s2) = s2\<lparr>trace := trace s2 @ evs\<rparr>
         \<and> ConnClose \<notin> set evs
         \<and> conn_writes evs =
             (case NewFrameAddr w sid (case LookupIP w hostname of Inl e \<Rightarrow> [] | Inr ips \<Rightarrow> ips) of
                Inl e \<Rightarrow> []
              | Inr b \<Rightarrow> [b])
         \<and> (\<forall>e. LookupIP w hostname = Inl e \<longrightarrow> LogErr (Error e) \<in> set evs)
         \<and> (\<forall>e. NewFrameAddr w sid (case LookupIP w hostname of Inl e \<Rightarrow> [] | Inr ips \<Rightarrow> ips) = Inl e
                \<longrightarrow> LogErr (Error e) \<in> set evs)
         \<and> (\<forall>b e. NewFrameAddr w sid (case LookupIP w hostname of Inl e \<Rightarrow> [] | Inr ips \<Rightarrow> ips) = Inr b
                \<longrightarrow> snd (fst (Write w b s2)) = Some e \<longrightarrow> LogErr (Error e) \<in> set evs))"
proof -
  have a: "Run_iter w (Inr (FrameDns sid hostname)) s
     = (True, s\<lparr>trace := trace s @ [Go (Go_on_dns sid hostname)]\<rparr>)"
    by (simp add: emit_def)
  have b: "Run w ks (Inr (FrameDns sid hostname) # rs) s
     = Run w ks rs (s\<lparr>trace := trace s @ [Go (Go_on_dns sid hostname)]\<rparr>)"
    by (simp add: emit_def)
  have c: "run_task w ks wks (Go_on_dns sid hostname) s1 = (Returned, on_dns sid hostname s1)"
    by simp
  have d: "on_dns sid hostname s1 = s1\<lparr>trace := trace s1 @ [Go (Go_on_dns_lookup sid hostname)]\<rparr>"
    by (simp add: on_dns_def emit_def)
  have e: "run_task w ks wks (Go_on_dns_lookup sid hostname) s2 = on_dns_go w sid hostname s2"
    by simp
  show ?thesis
    by (intro conjI) (rule a, rule b, rule c, rule d, rule e,
        rule on_dns_go_spec [THEN conjunct1], rule on_dns_go_spec [THEN conjunct2])
qed

text \<open>
  The request for a name that does not resolve, on a new session, with each goroutine
  running as soon as it is started.
\<close>

theorem dns_request_replies_addr_witness:
  "LookupIP test_world ''unknown.invalid'' = Inl (Err ''no such host'')
   \<and> NewFrameAddr test_world 9 [] = Inr [8]
   \<and> Run_iter test_world (Inr (FrameDns 9 ''unknown.invalid'')) NewSession
       = (True, NewSession\<lparr>trace := trace NewSession @ [Go (Go_on_dns 9 ''unknown.invalid'')]\<rparr>)
   \<and> run_task test_world [] [] (Go_on_dns 9 ''unknown.invalid'')
        (snd (Run_iter test_world (Inr (FrameDns 9 ''unknown.invalid'')) NewSession))
       = (Returned, on_dns 9 ''unknown.invalid''
            (snd (Run_iter test_world (Inr (FrameDns 9 ''unknown.invalid'')) NewSession)))
   \<and> fst (on_dns_go test_world 9 ''unknown.invalid''
            (on_dns 9 ''unknown.invalid''
              (snd (Run_iter test_world (Inr (FrameDns 9 ''unknown.invalid'')) NewSession))))
       = Returned
   \<and> (\<exists>evs. snd (on_dns_go test_world 9 ''unknown.invalid''
                 (on_dns 9 ''unknown.invalid''
                   (snd (Run_iter test_world (Inr (FrameDns 9 ''unknown.invalid'')) NewSession))))
               = NewSession\<lparr>trace := trace NewSession
                   @ [Go (Go_on_dns 9 ''unknown.invalid''), Go (Go_on_dns_lookup 9 ''unknown.invalid'')]
                   @ evs\<rparr>
         \<and> ConnClose \<notin> set evs
         \<and> conn_writes evs = [[8]]
         \<and> LogErr ''no such host'' \<in> set evs)"
proof -
  let ?s1 = "snd (Run_iter test_world (Inr (FrameDns 9 ''unknown.invalid'')) NewSession)"
  let ?s2 = "on_dns 9 ''unknown.invalid'' ?s1"
  have a: "LookupIP test_world ''unknown.invalid'' = Inl (Err ''no such host'')"
    and b: "NewFrameAddr test_world 9 [] = Inr [8]"
    by (simp_all add: test_world_def)
  note T = dns_request_replies_addr [of test_world 9 "''unknown.invalid''" NewSession "[]" "[]" "[]" ?s1 ?s2]
  have t1: "Run_iter test_world (Inr (FrameDns 9 ''unknown.invalid'')) NewSession
       = (True, NewSession\<lparr>trace := trace NewSession @ [Go (Go_on_dns 9 ''unknown.invalid'')]\<rparr>)"
    by (rule T [THEN conjunct1])
  have t3: "run_task test_world [] [] (Go_on_dns 9 ''unknown.invalid'') ?s1 = (Returned, ?s2)"
    by (rule T [THEN conjunct2, THEN conjunct2, THEN conjunct1])
  have t4: "?s2 = ?s1\<lparr>trace := trace ?s1 @ [Go (Go_on_dns_lookup 9 ''unknown.invalid'')]\<rparr>"
    by (rule T [THEN conjunct2, THEN conjunct2, THEN conjunct2, THEN conjunct1])
  have t6: "fst (on_dns_go test_world 9 ''unknown.invalid'' ?s2) = Returned"
    by (rule T [THEN conjunct2, THEN conjunct2, THEN conjunct2, THEN conjunct2, THEN conjunct2,
        THEN conjunct1])
  obtain evs where ev: "snd (on_dns_go test_world 9 ''unknown.invalid'' ?s2) = ?s2\<lparr>trace := trace ?s2 @ evs\<rparr>"
      "ConnClose \<notin> set evs" "conn_writes evs = [[8]]" "LogErr ''no such host'' \<in> set evs"
    using T [THEN conjunct2, THEN conjunct2, THEN conjunct2, THEN conjunct2, THEN conjunct2,
        THEN conjunct2] a b
    by auto
  have s2: "?s2 = NewSession\<lparr>trace := trace NewSession
                   @ [Go (Go_on_dns 9 ''unknown.invalid''), Go (Go_on_dns_lookup 9 ''unknown.invalid'')]\<rparr>"
    by (simp add: on_dns_def emit_def)
  have "snd (on_dns_go test_world 9 ''unknown.invalid'' ?s2)
      = NewSession\<lparr>trace := trace NewSession
                   @ [Go (Go_on_dns 9 ''unknown.invalid''), Go (Go_on_dns_lookup 9 ''unknown.invalid'')]
                   @ evs\<rparr>"
    unfolding ev(1) by (simp add: on_dns_def emit_def)
  then have x: "\<exists>evs. snd (on_dns_go test_world 9 ''unknown.invalid'' ?s2)
               = NewSession\<lparr>trace := trace NewSession
                   @ [Go (Go_on_dns 9 ''unknown.invalid''), Go (Go_on_dns_lookup 9 ''unknown.invalid'')]
                   @ evs\<rparr>
         \<and> ConnClose \<notin> set evs
         \<and> conn_writes evs = [[8]]
         \<and> LogErr ''no such host'' \<in> set evs"
    using ev(2,3,4) by blast
  show ?thesis
    by (intro conjI) (rule a, rule b, rule t1, rule t3, rule t6, rule x)
qed

text \<open>The trace of the request for a name that does not resolve, on a new session.\<close>

lemma on_dns_go_unknown_host:
  "trace (snd (on_dns_go test_world 9 ''unknown.invalid'' NewSession))
     = [Go Go_keep_eye_open, LookupHost ''unknown.invalid'', LogErr ''no such host'',
        Lock Flock, ConnWrite [8], Unlock Flock]"
  by (simp add: on_dns_go_def test_world_def NewSession_def Write_unfold emit_def Let_def)

subsection \<open>The keepalive monitor\<close>

lemma drain_empty [simp]: "drain xs = []"
  by (induction xs) simp_all

lemma keep_eye_open_ping_eq:
  "keep_eye_open_ping w s =
     s\<lparr>ch_ping := [], now := now s + PINGTIME,
       trace := trace s
         @ [Sleep PINGTIME, Lock Flock, ConnWrite (NewFrameNoParam w MSG_PING 0), Unlock Flock]
         @ (case snd (fst (Write w (NewFrameNoParam w MSG_PING 0) s)) of
              None \<Rightarrow> []
            | Some e \<Rightarrow> [LogErr (Error e)])\<rparr>"
  by (simp add: keep_eye_open_ping_def Write_unfold emit_def Let_def split: prod.splits option.splits)

text \<open>
  Claim C5, as amended. \<^verbatim>\<open>NewSession\<close> queues one signal, so the creation of the
  session counts as a signal. In each turn of its loop the monitor starts a wait of
  6 times \<^verbatim>\<open>PINGTIME\<close>; if no signal is queued and none arrives before the wait is
  over, it calls \<^verbatim>\<open>Close\<close> at that moment: where every queue of the table has room for
  the sentinel of \<^verbatim>\<open>Close\<close> the transport is closed then and the monitor returns
  (where one has not, the monitor is stuck in \<^verbatim>\<open>Close\<close> and the transport stays
  open). If a signal is queued, or one arrives \<open>d\<close> nanoseconds into the wait, it
  receives it, empties the signal channel, sleeps one \<^verbatim>\<open>PINGTIME\<close>, and writes exactly
  one PING frame through \<^verbatim>\<open>Write\<close>; an error of that write is logged and the loop goes
  on, with nothing closed. The next wait starts only then: counted from the moment a
  signal is received, the monitor closes the session 7 times \<^verbatim>\<open>PINGTIME\<close> later at the
  earliest (one sleep, then a full wait), not 6 times.
\<close>

theorem keep_eye_open_iter_spec:
  "ch_ping NewSession = [1]
   \<and> (ch_ping s = [] \<and> (wk = Timeout \<or> (\<exists>d. wk = Signal d \<and> 6 * PINGTIME \<le> d)) \<longrightarrow>
        keep_eye_open_iter w ks wk s = Close ks (s\<lparr>now := now s + 6 * PINGTIME\<rparr>))
   \<and> (ch_ping s = [] \<and> (wk = Timeout \<or> (\<exists>d. wk = Signal d \<and> 6 * PINGTIME \<le> d))
         \<and> distinct ks \<longrightarrow>
        fst (keep_eye_open_iter w ks wk s)
          = (if sentinel_fits ks (ports s) then Returned else Blocked)
        \<and> trace (snd (keep_eye_open_iter w ks wk s))
          = trace s @ (if sentinel_fits ks (ports s) then [ConnClose] else [])
        \<and> now (snd (keep_eye_open_iter w ks wk s)) = now s + 6 * PINGTIME)
   \<and> (ch_ping s \<noteq> [] \<longrightarrow>
        keep_eye_open_iter w ks wk s =
          (Running,
           s\<lparr>ch_ping := [], now := now s + PINGTIME,
             trace := trace s
               @ [Sleep PINGTIME, Lock Flock, ConnWrite (NewFrameNoParam w MSG_PING 0), Unlock Flock]
               @ (case snd (fst (Write w (NewFrameNoParam w MSG_PING 0) s)) of
                    None \<Rightarrow> []
                  | Some e \<Rightarrow> [LogErr (Error e)])\<rparr>))
   \<and> (\<forall>d. ch_ping s = [] \<and> wk = Signal d \<and> d < 6 * PINGTIME \<longrightarrow>
        keep_eye_open_iter w ks wk s =
          (Running,
           s\<lparr>ch_ping := [], now := now s + d + PINGTIME,
             trace := trace s
               @ [Sleep PINGTIME, Lock Flock, ConnWrite (NewFrameNoParam w MSG_PING 0), Unlock Flock]
               @ (case snd (fst (Write w (NewFrameNoParam w MSG_PING 0) s)) of
                    None \<Rightarrow> []
                  | Some e \<Rightarrow> [LogErr (Error e)])\<rparr>))
   \<and> (ch_ping s \<noteq> [] \<longrightarrow>
        keep_eye_open w ks [wk, Timeout] s =
          Close ks
           (s\<lparr>ch_ping := [], now := now s + 7 * PINGTIME,
             trace := trace s
               @ [Sleep PINGTIME, Lock Flock, ConnWrite (NewFrameNoParam w MSG_PING 0), Unlock Flock]
               @ (case snd (fst (Write w (NewFrameNoParam w MSG_PING 0) s)) of
                    None \<Rightarrow> []
                  | Some e \<Rightarrow> [LogErr (Error e)])\<rparr>))
   \<and> (ch_ping s \<noteq> [] \<and> distinct ks \<longrightarrow>
        fst (keep_eye_open w ks [wk, Timeout] s)
          = (if sentinel_fits ks (ports s) then Returned else Blocked)
        \<and> trace (snd (keep_eye_open w ks [wk, Timeout] s))
          = trace s
            @ [Sleep PINGTIME, Lock Flock, ConnWrite (NewFrameNoParam w MSG_PING 0), Unlock Flock]
            @ (case snd (fst (Write w (NewFrameNoParam w MSG_PING 0) s)) of
                 None \<Rightarrow> []
               | Some e \<Rightarrow> [LogErr (Error e)])
            @ (if sentinel_fits ks (ports s) then [ConnClose] else [])
        \<and> now (snd (keep_eye_open w ks [wk, Timeout] s)) = now s + 7 * PINGTIME)"
proof -
  let ?ping = "NewFrameNoParam w MSG_PING 0"
  have W: "fst (Write w ?ping (s\<lparr>ch_ping := xs\<rparr>)) = fst (Write w ?ping s)"
    "fst (Write w ?ping (s\<lparr>now := t\<rparr>)) = fst (Write w ?ping s)" for xs t
    by (rule Write_fst_cong, simp)+
  have a: "ch_ping NewSession = [1]"
    by (simp add: NewSession_def)
  have b: "keep_eye_open_iter w ks wk s = Close ks (s\<lparr>now := now s + 6 * PINGTIME\<rparr>)"
    if "ch_ping s = []" "wk = Timeout \<or> (\<exists>d. wk = Signal d \<and> 6 * PINGTIME \<le> d)"
    using that by (auto simp add: keep_eye_open_iter_def)
  have c: "keep_eye_open_iter w ks wk s =
          (Running,
           s\<lparr>ch_ping := [], now := now s + PINGTIME,
             trace := trace s
               @ [Sleep PINGTIME, Lock Flock, ConnWrite ?ping, Unlock Flock]
               @ (case snd (fst (Write w ?ping s)) of None \<Rightarrow> [] | Some e \<Rightarrow> [LogErr (Error e)])\<rparr>)"
    if "ch_ping s \<noteq> []"
    using that by (cases "ch_ping s") (simp_all add: keep_eye_open_iter_def keep_eye_open_ping_eq W)
  have d: "keep_eye_open_iter w ks wk s =
          (Running,
           s\<lparr>ch_ping := [], now := now s + d + PINGTIME,
             trace := trace s
               @ [Sleep PINGTIME, Lock Flock, ConnWrite ?ping, Unlock Flock]
               @ (case snd (fst (Write w ?ping s)) of None \<Rightarrow> [] | Some e \<Rightarrow> [LogErr (Error e)])\<rparr>)"
    if "ch_ping s = []" "wk = Signal d" "d < 6 * PINGTIME" for d
    using that by (simp add: keep_eye_open_iter_def keep_eye_open_ping_eq W)
  have e: "keep_eye_open w ks [wk, Timeout] s =
          Close ks
           (s\<lparr>ch_ping := [], now := now s + 7 * PINGTIME,
             trace := trace s
               @ [Sleep PINGTIME, Lock Flock, ConnWrite ?ping, Unlock Flock]
               @ (case snd (fst (Write w ?ping s)) of None \<Rightarrow> [] | Some e \<Rightarrow> [LogErr (Error e)])\<rparr>)"
    if "ch_ping s \<noteq> []"
  proof -
    let ?s1 = "s\<lparr>ch_ping := [], now := now s + PINGTIME,
             trace := trace s
               @ [Sleep PINGTIME, Lock Flock, ConnWrite ?ping, Unlock Flock]
               @ (case snd (fst (Write w ?ping s)) of None \<Rightarrow> [] | Some e \<Rightarrow> [LogErr (Error e)])\<rparr>"
    have "keep_eye_open w ks [wk, Timeout] s = keep_eye_open w ks [Timeout] ?s1"
      by (simp add: c [OF that])
    also have "\<dots> = keep_eye_open_iter w ks Timeout ?s1"
      by (cases "keep_eye_open_iter w ks Timeout ?s1") (simp split: status.splits)
    also have "\<dots> = Close ks (?s1\<lparr>now := now ?s1 + 6 * PINGTIME\<rparr>)"
      by (simp add: keep_eye_open_iter_def)
    finally have f: "keep_eye_open w ks [wk, Timeout] s
        = Close ks (?s1\<lparr>now := now ?s1 + 6 * PINGTIME\<rparr>)" .
    have g: "?s1\<lparr>now := now ?s1 + 6 * PINGTIME\<rparr> =
           s\<lparr>ch_ping := [], now := now s + 7 * PINGTIME,
             trace := trace s
               @ [Sleep PINGTIME, Lock Flock, ConnWrite ?ping, Unlock Flock]
               @ (case snd (fst (Write w ?ping s)) of None \<Rightarrow> [] | Some e \<Rightarrow> [LogErr (Error e)])\<rparr>"
      by (rule Session.equality) simp_all
    show ?thesis unfolding f g by (rule refl)
  qed
  have b': "fst (keep_eye_open_iter w ks wk s)
          = (if sentinel_fits ks (ports s) then Returned else Blocked)
        \<and> trace (snd (keep_eye_open_iter w ks wk s))
          = trace s @ (if sentinel_fits ks (ports s) then [ConnClose] else [])
        \<and> now (snd (keep_eye_open_iter w ks wk s)) = now s + 6 * PINGTIME"
    if "ch_ping s = []" "wk = Timeout \<or> (\<exists>d. wk = Signal d \<and> 6 * PINGTIME \<le> d)" "distinct ks"
    using Close_spec [OF that(3), of "s\<lparr>now := now s + 6 * PINGTIME\<rparr>"]
    by (simp add: b [OF that(1,2)])
  have e': "fst (keep_eye_open w ks [wk, Timeout] s)
          = (if sentinel_fits ks (ports s) then Returned else Blocked)
        \<and> trace (snd (keep_eye_open w ks [wk, Timeout] s))
          = trace s
            @ [Sleep PINGTIME, Lock Flock, ConnWrite ?ping, Unlock Flock]
            @ (case snd (fst (Write w ?ping s)) of None \<Rightarrow> [] | Some e \<Rightarrow> [LogErr (Error e)])
            @ (if sentinel_fits ks (ports s) then [ConnClose] else [])
        \<and> now (snd (keep_eye_open w ks [wk, Timeout] s)) = now s + 7 * PINGTIME"
    if "ch_ping s \<noteq> []" "distinct ks"
    using Close_spec [OF that(2), of "s\<lparr>ch_ping := [], now := now s + 7 * PINGTIME,
             trace := trace s
               @ [Sleep PINGTIME, Lock Flock, ConnWrite ?ping, Unlock Flock]
               @ (case snd (fst (Write w ?ping s)) of None \<Rightarrow> [] | Some e \<Rightarrow> [LogErr (Error e)])\<rparr>"]
    by (simp add: e [OF that(1)] del: keep_eye_open.simps)
  show ?thesis
    using a b c d e b' e' by blast
qed

theorem keep_eye_open_iter_spec_witness:
  "ch_ping NewSession \<noteq> []
   \<and> keep_eye_open_iter test_world [] (Signal 0) NewSession =
       (Running,
        NewSession\<lparr>ch_ping := [], now := now NewSession + PINGTIME,
          trace := trace NewSession
            @ [Sleep PINGTIME, Lock Flock, ConnWrite (NewFrameNoParam test_world MSG_PING 0), Unlock Flock]
            @ (case snd (fst (Write test_world (NewFrameNoParam test_world MSG_PING 0) NewSession)) of
                 None \<Rightarrow> []
               | Some e \<Rightarrow> [LogErr (Error e)])\<rparr>)
   \<and> ch_ping waiting_session = []
   \<and> keep_eye_open_iter test_world [] Timeout waiting_session
       = Close [] (waiting_session\<lparr>now := now waiting_session + 6 * PINGTIME\<rparr>)
   \<and> 160 * Second < 6 * PINGTIME
   \<and> fst (keep_eye_open_iter test_world [] (Signal (160 * Second)) waiting_session) = Running
   \<and> ch_ping quiet_stream = [] \<and> distinct [5 :: streamid] \<and> sentinel_fits [5] (ports quiet_stream)
   \<and> fst (keep_eye_open_iter test_world [5] Timeout quiet_stream) = Returned
   \<and> trace (snd (keep_eye_open_iter test_world [5] Timeout quiet_stream))
       = trace quiet_stream @ [ConnClose]
   \<and> now (snd (keep_eye_open_iter test_world [5] Timeout quiet_stream))
       = now quiet_stream + 6 * PINGTIME
   \<and> ch_ping one_stream \<noteq> [] \<and> sentinel_fits [5] (ports one_stream)
   \<and> fst (keep_eye_open test_world [5] [Signal 0, Timeout] one_stream) = Returned
   \<and> now (snd (keep_eye_open test_world [5] [Signal 0, Timeout] one_stream))
       = now one_stream + 7 * PINGTIME"
proof -
  have a: "ch_ping NewSession \<noteq> []"
    by (simp add: NewSession_def)
  have b: "ch_ping waiting_session = []"
    by (simp add: waiting_session_def keep_eye_open_iter_def keep_eye_open_ping_eq NewSession_def)
  have c: "160 * Second < 6 * PINGTIME"
    by (simp add: PINGTIME_def Second_def Millisecond_def)
  have q: "ch_ping quiet_stream = []" "distinct [5 :: streamid]"
      "sentinel_fits [5] (ports quiet_stream)"
    by (simp_all add: quiet_stream_def one_stream_def CHANLEN_def)
  have o: "ch_ping one_stream \<noteq> []" "sentinel_fits [5] (ports one_stream)"
    by (simp_all add: one_stream_def NewSession_def CHANLEN_def)
  note Q = keep_eye_open_iter_spec [of quiet_stream Timeout test_world "[5]"]
  note O = keep_eye_open_iter_spec [of one_stream "Signal 0" test_world "[5]"]
  have q': "fst (keep_eye_open_iter test_world [5] Timeout quiet_stream) = Returned
   \<and> trace (snd (keep_eye_open_iter test_world [5] Timeout quiet_stream))
       = trace quiet_stream @ [ConnClose]
   \<and> now (snd (keep_eye_open_iter test_world [5] Timeout quiet_stream))
       = now quiet_stream + 6 * PINGTIME"
    using Q [THEN conjunct2, THEN conjunct2, THEN conjunct1] q by simp
  have o': "fst (keep_eye_open test_world [5] [Signal 0, Timeout] one_stream) = Returned
   \<and> now (snd (keep_eye_open test_world [5] [Signal 0, Timeout] one_stream))
       = now one_stream + 7 * PINGTIME"
    using O [THEN conjunct2, THEN conjunct2, THEN conjunct2, THEN conjunct2, THEN conjunct2,
        THEN conjunct2] o q(2)
    by (simp del: keep_eye_open.simps)
  have n: "ch_ping NewSession \<noteq> []
   \<and> keep_eye_open_iter test_world [] (Signal 0) NewSession =
       (Running,
        NewSession\<lparr>ch_ping := [], now := now NewSession + PINGTIME,
          trace := trace NewSession
            @ [Sleep PINGTIME, Lock Flock, ConnWrite (NewFrameNoParam test_world MSG_PING 0), Unlock Flock]
            @ (case snd (fst (Write test_world (NewFrameNoParam test_world MSG_PING 0) NewSession)) of
                 None \<Rightarrow> []
               | Some e \<Rightarrow> [LogErr (Error e)])\<rparr>)
   \<and> ch_ping waiting_session = []
   \<and> keep_eye_open_iter test_world [] Timeout waiting_session
       = Close [] (waiting_session\<lparr>now := now waiting_session + 6 * PINGTIME\<rparr>)
   \<and> 160 * Second < 6 * PINGTIME
   \<and> fst (keep_eye_open_iter test_world [] (Signal (160 * Second)) waiting_session) = Running"
    using a b c keep_eye_open_iter_spec [of NewSession "Signal 0" test_world "[]"]
      keep_eye_open_iter_spec [of waiting_session Timeout test_world "[]"]
      keep_eye_open_iter_spec [of waiting_session "Signal (160 * Second)" test_world "[]"]
    by simp
  show ?thesis
    using n q q' o o' by (simp del: keep_eye_open.simps)
qed

text \<open>
  Claim C5 as stated fails. The monitor of a new session handles the creation signal at
  time 0 and is back in its select at 30 seconds. A signal that arrives 160 seconds
  later, which is 190 seconds after the last one, is still accepted: the monitor keeps
  running and nothing is closed, although more than 6 times 30 seconds went by without a
  signal. With no further signal at all, the session is closed at 210 seconds, not 180.
\<close>

theorem keepalive_deadline_counterexample:
  "now (snd (keep_eye_open test_world [] [Signal 0] NewSession)) = 30 * Second
   \<and> fst (keep_eye_open test_world [] [Signal 0, Signal (160 * Second)] NewSession) = Running
   \<and> ConnClose \<notin> set (trace (snd (keep_eye_open test_world [] [Signal 0, Signal (160 * Second)] NewSession)))
   \<and> fst (keep_eye_open test_world [] [Signal 0, Timeout] NewSession) = Returned
   \<and> ConnClose \<in> set (trace (snd (keep_eye_open test_world [] [Signal 0, Timeout] NewSession)))
   \<and> now (snd (keep_eye_open test_world [] [Signal 0, Timeout] NewSession)) = 210 * Second"
  by (simp add: keep_eye_open_iter_def keep_eye_open_ping_eq Write_unfold Close_def NewSession_def
      test_world_def emit_def PINGTIME_def Second_def Millisecond_def)

end
